theory Spec2Isabelle
  imports Complex_Main "HOL-Library.Log_Nat"
begin

section \<open>JavaScript numbers\<close>

text \<open>
  Every number of the program is an IEEE 754 binary64 value. A finite value is kept as the
  rational it denotes; the two infinities and NaN are values of their own. The sign of zero
  is not kept: the functions modelled here compare zeros, add them and print them with
  \<open>toFixed\<close>, where \<open>+0\<close> and \<open>-0\<close> behave alike, and where they divide by a zero
  it is either positive (as division takes it to be here) or the call ends in the same
  TypeError whatever its sign.

  Arithmetic on two finite values computes the exact rational result and rounds it to the
  nearest binary64 value, ties to even, with gradual underflow below \<open>2 powi (- 1022)\<close>
  and overflow to an infinity when the rounded magnitude reaches \<open>2 ^ 1024\<close>.
\<close>

datatype jsnum = Fin rat | PInf | NInf | NaN

definition ilog2 :: "rat \<Rightarrow> int" where
  "ilog2 a = (let (p, q) = quotient_of a; k = bitlen p - bitlen q
              in if 2 powi k \<le> a then k else k - 1)"

definition expo :: "rat \<Rightarrow> int" where
  "expo a = max (ilog2 a) (- 1022)"

definition rne :: "rat \<Rightarrow> int" where
  "rne t = (let f = \<lfloor>t\<rfloor>; d = t - of_int f
            in if d < 1 / 2 then f else if 1 / 2 < d then f + 1
               else if even f then f else f + 1)"

definition rnd_mag :: "rat \<Rightarrow> rat" where
  "rnd_mag a = (let u = 2 powi (expo a - 52) in of_int (rne (a / u)) * u)"

definition rnd :: "rat \<Rightarrow> jsnum" where
  "rnd q = (if q = 0 then Fin 0
            else let r = rnd_mag \<bar>q\<bar>
                 in if 2 ^ 1024 \<le> r then (if 0 < q then PInf else NInf)
                    else Fin (sgn q * r))"

definition is_double :: "rat \<Rightarrow> bool" where
  "is_double q \<longleftrightarrow> rnd q = Fin q"

text \<open>A decimal literal of the source denotes the binary64 value nearest to it.\<close>

definition lit :: "rat \<Rightarrow> jsnum" where
  "lit q = rnd q"

fun jneg :: "jsnum \<Rightarrow> jsnum" where
  "jneg (Fin a) = Fin (- a)"
| "jneg PInf = NInf"
| "jneg NInf = PInf"
| "jneg NaN = NaN"

fun jadd :: "jsnum \<Rightarrow> jsnum \<Rightarrow> jsnum" where
  "jadd (Fin a) (Fin b) = rnd (a + b)"
| "jadd (Fin a) PInf = PInf"
| "jadd (Fin a) NInf = NInf"
| "jadd PInf (Fin b) = PInf"
| "jadd NInf (Fin b) = NInf"
| "jadd PInf PInf = PInf"
| "jadd NInf NInf = NInf"
| "jadd PInf NInf = NaN"
| "jadd NInf PInf = NaN"
| "jadd NaN y = NaN"
| "jadd x NaN = NaN"

definition jsub :: "jsnum \<Rightarrow> jsnum \<Rightarrow> jsnum" where
  "jsub x y = jadd x (jneg y)"

fun jmul :: "jsnum \<Rightarrow> jsnum \<Rightarrow> jsnum" where
  "jmul (Fin a) (Fin b) = rnd (a * b)"
| "jmul (Fin a) PInf = (if a = 0 then NaN else if 0 < a then PInf else NInf)"
| "jmul (Fin a) NInf = (if a = 0 then NaN else if 0 < a then NInf else PInf)"
| "jmul PInf (Fin b) = (if b = 0 then NaN else if 0 < b then PInf else NInf)"
| "jmul NInf (Fin b) = (if b = 0 then NaN else if 0 < b then NInf else PInf)"
| "jmul PInf PInf = PInf"
| "jmul NInf NInf = PInf"
| "jmul PInf NInf = NInf"
| "jmul NInf PInf = NInf"
| "jmul NaN y = NaN"
| "jmul x NaN = NaN"

fun jdiv :: "jsnum \<Rightarrow> jsnum \<Rightarrow> jsnum" where
  "jdiv (Fin a) (Fin b) =
     (if b = 0 then (if a = 0 then NaN else if 0 < a then PInf else NInf)
      else rnd (a / b))"
| "jdiv (Fin a) PInf = Fin 0"
| "jdiv (Fin a) NInf = Fin 0"
| "jdiv PInf (Fin b) = (if 0 \<le> b then PInf else NInf)"
| "jdiv NInf (Fin b) = (if 0 \<le> b then NInf else PInf)"
| "jdiv PInf PInf = NaN"
| "jdiv NInf NInf = NaN"
| "jdiv PInf NInf = NaN"
| "jdiv NInf PInf = NaN"
| "jdiv NaN y = NaN"
| "jdiv x NaN = NaN"

text \<open>
  The relational operators. \<open>x < y\<close> is false as soon as an operand is NaN;
  \<open>x <= y\<close> is, as the language defines it, "neither is NaN, and not \<open>y < x\<close>".
\<close>

fun jlt :: "jsnum \<Rightarrow> jsnum \<Rightarrow> bool" where
  "jlt (Fin a) (Fin b) \<longleftrightarrow> a < b"
| "jlt (Fin a) PInf \<longleftrightarrow> True"
| "jlt (Fin a) NInf \<longleftrightarrow> False"
| "jlt PInf y \<longleftrightarrow> False"
| "jlt NInf (Fin b) \<longleftrightarrow> True"
| "jlt NInf PInf \<longleftrightarrow> True"
| "jlt NInf NInf \<longleftrightarrow> False"
| "jlt NaN y \<longleftrightarrow> False"
| "jlt x NaN \<longleftrightarrow> False"

definition jgt :: "jsnum \<Rightarrow> jsnum \<Rightarrow> bool" where
  "jgt x y \<longleftrightarrow> jlt y x"

definition jle :: "jsnum \<Rightarrow> jsnum \<Rightarrow> bool" where
  "jle x y \<longleftrightarrow> x \<noteq> NaN \<and> y \<noteq> NaN \<and> \<not> jlt y x"

definition jge :: "jsnum \<Rightarrow> jsnum \<Rightarrow> bool" where
  "jge x y \<longleftrightarrow> x \<noteq> NaN \<and> y \<noteq> NaN \<and> \<not> jlt x y"

text \<open>Strict equality \<open>===\<close> of two numbers.\<close>

definition jeq :: "jsnum \<Rightarrow> jsnum \<Rightarrow> bool" where
  "jeq x y \<longleftrightarrow> x \<noteq> NaN \<and> x = y"

text \<open>\<open>Math.floor\<close>, and \<open>Math.min\<close> and \<open>Math.max\<close> applied to a spread array.\<close>

fun math_floor :: "jsnum \<Rightarrow> jsnum" where
  "math_floor (Fin a) = Fin (of_int \<lfloor>a\<rfloor>)"
| "math_floor x = x"

definition math_min :: "jsnum list \<Rightarrow> jsnum" where
  "math_min xs = (if NaN \<in> set xs then NaN
                  else foldl (\<lambda>lowest x. if jlt x lowest then x else lowest) PInf xs)"

definition math_max :: "jsnum list \<Rightarrow> jsnum" where
  "math_max xs = (if NaN \<in> set xs then NaN
                  else foldl (\<lambda>highest x. if jlt highest x then x else highest) NInf xs)"

text \<open>
  A property read \<open>obj[key]\<close> gives \<open>undefined\<close> (here \<open>None\<close>) for a missing key.
  \<open>typeof v === 'number' && Number.isFinite(v)\<close>, \<open>Number.isNaN(v)\<close> and
  \<open>v != null\<close> on such a read:
\<close>

fun number_isFinite :: "jsnum option \<Rightarrow> bool" where
  "number_isFinite (Some (Fin a)) \<longleftrightarrow> True"
| "number_isFinite v \<longleftrightarrow> False"

definition number_isNaN :: "jsnum option \<Rightarrow> bool" where
  "number_isNaN v \<longleftrightarrow> v = Some NaN"

definition not_nullish :: "jsnum option \<Rightarrow> bool" where
  "not_nullish v \<longleftrightarrow> v \<noteq> None"


section \<open>JavaScript strings\<close>

text \<open>
  A string is a sequence of UTF-16 code units, kept as natural numbers; \<open>js\<close> embeds an
  ASCII literal. White space is what \<open>String.prototype.trim\<close> strips and what \<open>\s\<close>
  matches in a regular expression (the WhiteSpace and LineTerminator code points, all of
  them single code units); \<open>\d\<close> matches the ten ASCII digits.
\<close>

type_synonym jsstring = "nat list"

definition js :: "string \<Rightarrow> jsstring" where
  "js s = map of_char s"

definition is_space :: "nat \<Rightarrow> bool" where
  "is_space c \<longleftrightarrow>
     (9 \<le> c \<and> c \<le> 13) \<or> c = 32 \<or> c = 160 \<or> c = 5760 \<or> (8192 \<le> c \<and> c \<le> 8202) \<or>
     c = 8232 \<or> c = 8233 \<or> c = 8239 \<or> c = 8287 \<or> c = 12288 \<or> c = 65279"

definition is_digit :: "nat \<Rightarrow> bool" where
  "is_digit c \<longleftrightarrow> 48 \<le> c \<and> c \<le> 57"

definition trim :: "jsstring \<Rightarrow> jsstring" where
  "trim s = rev (dropWhile is_space (rev (dropWhile is_space s)))"

text \<open>\<open>Array.prototype.join\<close> on an array of strings.\<close>

fun join :: "jsstring \<Rightarrow> jsstring list \<Rightarrow> jsstring" where
  "join sep [] = []"
| "join sep [x] = x"
| "join sep (x # y # ys) = x @ sep @ join sep (y # ys)"

subsection \<open>Number.prototype.toFixed\<close>

text \<open>
  \<open>x.toFixed(f)\<close> for a constant \<open>f\<close> between 0 and 100 (the program passes 0, 1 and 2):
  NaN and the infinities print by name; a negative value prints as \<open>-\<close> followed by its
  magnitude; a magnitude below \<open>10^21\<close> prints the integer \<open>n\<close> nearest to
  \<open>x * 10^f\<close> (the larger one on a tie) with a point before its last \<open>f\<close> digits.
  From \<open>10^21\<close> on the language falls back to its shortest-digits conversion, whose last
  digit it leaves to the host; that conversion is the parameter \<open>big\<close>.
\<close>

fun digits :: "nat \<Rightarrow> jsstring" where
  "digits n = (if n < 10 then [48 + n] else digits (n div 10) @ [48 + n mod 10])"

declare digits.simps [simp del]

definition fixed_digits :: "rat \<Rightarrow> nat \<Rightarrow> jsstring" where
  "fixed_digits x f =
     (let n = nat \<lfloor>x * 10 ^ f + 1 / 2\<rfloor>;
          m = digits n
      in if f = 0 then m
         else let m' = (if length m \<le> f then replicate (f + 1 - length m) 48 @ m else m);
                  k = length m'
              in take (k - f) m' @ js ''.'' @ drop (k - f) m')"

fun toFixed :: "(rat \<Rightarrow> jsstring) \<Rightarrow> jsnum \<Rightarrow> nat \<Rightarrow> jsstring" where
  "toFixed big NaN f = js ''NaN''"
| "toFixed big PInf f = js ''Infinity''"
| "toFixed big NInf f = js ''-Infinity''"
| "toFixed big (Fin x) f =
     (if x < 0 then js ''-'' else []) @
     (if 10 ^ 21 \<le> \<bar>x\<bar> then big \<bar>x\<bar> else fixed_digits \<bar>x\<bar> f)"


text \<open>
  A closed example has to name some host. No example of this theory prints a number of
  magnitude \<open>10^21\<close> or more, so each holds for every host; they are stated for the one
  that answers the empty string.
\<close>

definition any_host :: "rat \<Rightarrow> jsstring" where
  "any_host q = []"

section \<open>The data model\<close>

text \<open>
  An experiment has an id and two dictionaries from property names to numbers
  (\<open>src/data/experiments.ts\<close>). Reading a name that a dictionary lacks gives \<open>None\<close>.
  The names are those of the dataset's properties; a name that every object inherits, such
  as \<open>toString\<close>, would read as a function in the program and is not a property here.
\<close>

record Experiment =
  exp_id :: jsstring
  inputs :: "jsstring \<rightharpoonup> jsnum"
  outputs :: "jsstring \<rightharpoonup> jsnum"

record Stats =
  mean :: jsnum
  min_v :: jsnum
  max_v :: jsnum

record AdvisorSection =
  sec_id :: jsstring
  sec_title :: jsstring
  sec_bullets :: "jsstring list"
  sec_why :: jsstring

section \<open>The rule-based advisor (\<open>src/services/advisor.ts\<close>)\<close>

text \<open>
  \<open>computeStats\<close> keeps the entries that are finite numbers. With none left it answers
  zeros; otherwise the minimum, the maximum, and the sum (a left fold from 0) divided by
  the count.
\<close>

fun finite_only :: "jsnum option list \<Rightarrow> jsnum list" where
  "finite_only [] = []"
| "finite_only (v # vs) =
     (case v of Some (Fin a) \<Rightarrow> Fin a # finite_only vs | _ \<Rightarrow> finite_only vs)"

definition computeStats :: "jsnum option list \<Rightarrow> Stats" where
  "computeStats values =
     (let valid = finite_only values
      in if length valid = 0 then \<lparr>mean = Fin 0, min_v = Fin 0, max_v = Fin 0\<rparr>
         else \<lparr>mean = jdiv (foldl jadd (Fin 0) valid) (Fin (of_nat (length valid))),
               min_v = math_min valid,
               max_v = math_max valid\<rparr>)"

text \<open>
  The description of \<open>computeStats\<close> in the specification, for comparison with the
  function above: keep the finite numbers; with none left answer zeros; otherwise the
  arithmetic mean, the least and the greatest of the kept values.
\<close>

definition finite_values :: "jsnum option list \<Rightarrow> rat list" where
  "finite_values values = [q. Some (Fin q) \<leftarrow> values]"

definition arith_mean :: "rat list \<Rightarrow> rat" where
  "arith_mean qs = sum_list qs / of_nat (length qs)"

definition spec_computeStats :: "jsnum option list \<Rightarrow> Stats" where
  "spec_computeStats values =
     (let valid = finite_values values
      in if valid = [] then \<lparr>mean = Fin 0, min_v = Fin 0, max_v = Fin 0\<rparr>
         else \<lparr>mean = Fin (arith_mean valid),
               min_v = Fin (Min (set valid)), max_v = Fin (Max (set valid))\<rparr>)"

text \<open>
  A second description, which differs in the mean only: the kept values are added one by
  one from the left, starting from 0, each sum rounded to binary64 (and staying infinite
  once it has overflowed), and the sum is divided by the count, the quotient rounded to
  binary64.
\<close>

fun binary64_add :: "jsnum \<Rightarrow> rat \<Rightarrow> jsnum" where
  "binary64_add (Fin s) q = rnd (s + q)"
| "binary64_add x q = x"

definition binary64_sum :: "rat list \<Rightarrow> jsnum" where
  "binary64_sum qs = foldl binary64_add (Fin 0) qs"

fun binary64_quotient :: "jsnum \<Rightarrow> nat \<Rightarrow> jsnum" where
  "binary64_quotient (Fin s) n = rnd (s / of_nat n)"
| "binary64_quotient x n = x"

definition binary64_computeStats :: "jsnum option list \<Rightarrow> Stats" where
  "binary64_computeStats values =
     (let valid = finite_values values
      in if valid = [] then \<lparr>mean = Fin 0, min_v = Fin 0, max_v = Fin 0\<rparr>
         else \<lparr>mean = binary64_quotient (binary64_sum valid) (length valid),
               min_v = Fin (Min (set valid)), max_v = Fin (Max (set valid))\<rparr>)"

datatype field_kind = Input | Output

definition statsForField :: "Experiment list \<Rightarrow> jsstring \<Rightarrow> field_kind \<Rightarrow> Stats" where
  "statsForField experiments field kind =
     computeStats (map (\<lambda>e. case kind of Input \<Rightarrow> inputs e field | Output \<Rightarrow> outputs e field)
                       experiments)"

definition high :: "jsnum \<Rightarrow> Stats \<Rightarrow> bool" where
  "high v st \<longleftrightarrow> jgt v (jmul (mean st) (lit (115 / 100)))"

definition low :: "jsnum \<Rightarrow> Stats \<Rightarrow> bool" where
  "low v st \<longleftrightarrow> jlt v (jmul (mean st) (lit (85 / 100)))"

definition highThreshold :: "Stats \<Rightarrow> jsnum" where
  "highThreshold st = jmul (mean st) (lit (115 / 100))"

definition lowThreshold :: "Stats \<Rightarrow> jsnum" where
  "lowThreshold st = jmul (mean st) (lit (85 / 100))"

subsection \<open>The texts\<close>

text \<open>
  One constant for each string the advisor pushes: the bullet and the line of the
  "why" panel pushed with it. Code units outside ASCII are written as numbers:
  8211 is the en dash, 215 the multiplication sign, 177 plus-minus, 176 the degree sign and
  8804 less-than-or-equal.
\<close>

definition bullet_coAgent1_high :: "(rat \<Rightarrow> jsstring) \<Rightarrow> jsnum \<Rightarrow> Stats \<Rightarrow> jsstring" where
  \<open>bullet_coAgent1_high big v st =
     js ''Co-Agent 1 is relatively high here ('' @
     toFixed big v 1 @
     js '' vs dataset mean '' @
     toFixed big (mean st) 1 @
     js '' phr). You could explore mixes that trade some of this for cheaper fillers while staying within the '' @
     toFixed big (min_v st) 1 @
     [8211] @
     toFixed big (max_v st) 1 @
     js '' phr window observed in past runs.''\<close>

definition why_coAgent1_high :: "(rat \<Rightarrow> jsstring) \<Rightarrow> jsnum \<Rightarrow> Stats \<Rightarrow> jsstring" where
  \<open>why_coAgent1_high big v st =
     js ''Co-Agent 1: value = '' @
     toFixed big v 2 @
     js '' phr, mean = '' @
     toFixed big (mean st) 2 @
     js '' phr, range = '' @
     toFixed big (min_v st) 2 @
     [8211] @
     toFixed big (max_v st) 2 @
     js '' phr. Rule: "high" if value > 1.15'' @
     [215] @
     js ''mean ('' @
     toFixed big (highThreshold st) 2 @
     js '').''\<close>

definition bullet_coAgent1_low :: "(rat \<Rightarrow> jsstring) \<Rightarrow> jsnum \<Rightarrow> Stats \<Rightarrow> jsstring" where
  \<open>bullet_coAgent1_low big v st =
     js ''Co-Agent 1 is on the low side ('' @
     toFixed big v 1 @
     js '' phr). If you need more performance headroom, there is room to increase up towards the historical mean '' @
     toFixed big (mean st) 1 @
     js '' phr.''\<close>

definition why_coAgent1_low :: "(rat \<Rightarrow> jsstring) \<Rightarrow> jsnum \<Rightarrow> Stats \<Rightarrow> jsstring" where
  \<open>why_coAgent1_low big v st =
     js ''Co-Agent 1: value = '' @
     toFixed big v 2 @
     js '' phr, mean = '' @
     toFixed big (mean st) 2 @
     js '' phr. Rule: "low" if value < 0.85'' @
     [215] @
     js ''mean ('' @
     toFixed big (lowThreshold st) 2 @
     js '').''\<close>

definition bullet_coAgent2_high :: "(rat \<Rightarrow> jsstring) \<Rightarrow> jsnum \<Rightarrow> Stats \<Rightarrow> jsstring" where
  \<open>bullet_coAgent2_high big v st =
     js ''Co-Agent 2 is also high ('' @
     toFixed big v 1 @
     js '' vs dataset mean '' @
     toFixed big (mean st) 1 @
     js '' phr). Experiments that substitute some of this for cheaper filler systems may reduce cost while staying within the '' @
     toFixed big (min_v st) 1 @
     [8211] @
     toFixed big (max_v st) 1 @
     js '' phr historical band.''\<close>

definition why_coAgent2_high :: "(rat \<Rightarrow> jsstring) \<Rightarrow> jsnum \<Rightarrow> Stats \<Rightarrow> jsstring" where
  \<open>why_coAgent2_high big v st =
     js ''Co-Agent 2: value = '' @
     toFixed big v 2 @
     js '' phr, mean = '' @
     toFixed big (mean st) 2 @
     js '' phr, range = '' @
     toFixed big (min_v st) 2 @
     [8211] @
     toFixed big (max_v st) 2 @
     js '' phr. Rule: "high" if value > 1.15'' @
     [215] @
     js ''mean ('' @
     toFixed big (highThreshold st) 2 @
     js '').''\<close>

definition bullet_carbonBlack_high :: "(rat \<Rightarrow> jsstring) \<Rightarrow> jsnum \<Rightarrow> Stats \<Rightarrow> jsstring" where
  \<open>bullet_carbonBlack_high big v st =
     js ''Carbon Black High Grade is near the top of the historical range ('' @
     toFixed big v 1 @
     js '' vs mean '' @
     toFixed big (mean st) 1 @
     js '' phr). If cost is driving, you could search for runs that partially replace this with lower grade carbon black or silica filler while watching mechanical properties.''\<close>

definition why_carbonBlack_high :: "(rat \<Rightarrow> jsstring) \<Rightarrow> jsnum \<Rightarrow> Stats \<Rightarrow> jsstring" where
  \<open>why_carbonBlack_high big v st =
     js ''Carbon Black High Grade: value = '' @
     toFixed big v 2 @
     js '' phr, mean = '' @
     toFixed big (mean st) 2 @
     js '' phr, range = '' @
     toFixed big (min_v st) 2 @
     [8211] @
     toFixed big (max_v st) 2 @
     js '' phr. Rule: "high" if value > 1.15'' @
     [215] @
     js ''mean ('' @
     toFixed big (highThreshold st) 2 @
     js '').''\<close>

definition bullet_cost_fallback :: jsstring where
  \<open>bullet_cost_fallback =
     js ''The current run sits close to typical loadings for the main co-agents and fillers. Cost levers are likely to come from incremental filler substitutions rather than large stoichiometric changes.''\<close>

definition why_cost_fallback :: jsstring where
  \<open>why_cost_fallback =
     js ''No major cost outliers detected for the tracked co-agents and fillers (all within '' @
     [177] @
     js ''15% of historical means).''\<close>

definition bullet_cureTime_slow :: "(rat \<Rightarrow> jsstring) \<Rightarrow> jsnum \<Rightarrow> Stats \<Rightarrow> jsstring" where
  \<open>bullet_cureTime_slow big v st =
     js ''Cure time ('' @
     toFixed big v 2 @
     js '' min) is slower than the dataset mean ('' @
     toFixed big (mean st) 2 @
     js '' min). You could prioritise designs with slightly higher oven temperatures or co-agent loadings that move you back towards the lower half of the observed cure-time window.''\<close>

definition why_cureTime_slow :: "(rat \<Rightarrow> jsstring) \<Rightarrow> jsnum \<Rightarrow> Stats \<Rightarrow> jsstring" where
  \<open>why_cureTime_slow big v st =
     js ''Cure Time: value = '' @
     toFixed big v 2 @
     js '' min, mean = '' @
     toFixed big (mean st) 2 @
     js '' min. Rule: "slow" if value > 1.15'' @
     [215] @
     js ''mean ('' @
     toFixed big (highThreshold st) 2 @
     js '').''\<close>

definition bullet_cureTime_ok :: "(rat \<Rightarrow> jsstring) \<Rightarrow> jsnum \<Rightarrow> Stats \<Rightarrow> jsstring" where
  \<open>bullet_cureTime_ok big v st =
     js ''Cure time ('' @
     toFixed big v 2 @
     js '' min) is already at or better than the dataset mean ('' @
     toFixed big (mean st) 2 @
     js '' min). This run can act as a reference when optimising cost without sacrificing turn-around.''\<close>

definition why_cureTime_ok :: "(rat \<Rightarrow> jsstring) \<Rightarrow> jsnum \<Rightarrow> Stats \<Rightarrow> jsstring" where
  \<open>why_cureTime_ok big v st =
     js ''Cure Time: value = '' @
     toFixed big v 2 @
     js '' min, mean = '' @
     toFixed big (mean st) 2 @
     js '' min. Rule: considered "acceptable" if within '' @
     [177] @
     js ''15% of mean.''\<close>

definition bullet_oven_high :: "(rat \<Rightarrow> jsstring) \<Rightarrow> jsnum \<Rightarrow> Stats \<Rightarrow> jsstring" where
  \<open>bullet_oven_high big v st =
     js ''Oven temperature is at the upper part of the historical range ('' @
     toFixed big v 0 @
     js '' '' @
     [176] @
     js ''F vs '' @
     toFixed big (min_v st) 0 @
     [8211] @
     toFixed big (max_v st) 0 @
     js '' '' @
     [176] @
     js ''F). If energy usage is a concern, you could explore nearby recipes that operate slightly cooler while confirming they preserve cure time and performance.''\<close>

definition why_oven_high :: "(rat \<Rightarrow> jsstring) \<Rightarrow> jsnum \<Rightarrow> Stats \<Rightarrow> jsstring" where
  \<open>why_oven_high big v st =
     js ''Oven Temperature: value = '' @
     toFixed big v 0 @
     js '' '' @
     [176] @
     js ''F, range = '' @
     toFixed big (min_v st) 0 @
     [8211] @
     toFixed big (max_v st) 0 @
     js '' '' @
     [176] @
     js ''F. Rule: "high" if value > 1.15'' @
     [215] @
     js ''mean ('' @
     toFixed big (highThreshold st) 0 @
     js '').''\<close>

definition bullet_oven_moderate :: "(rat \<Rightarrow> jsstring) \<Rightarrow> jsnum \<Rightarrow> Stats \<Rightarrow> jsstring" where
  \<open>bullet_oven_moderate big v st =
     js ''Oven temperature is moderate ('' @
     toFixed big v 0 @
     js '' '' @
     [176] @
     js ''F). There may be room to push temperature up slightly for faster cure when cycle-time pressure is high.''\<close>

definition why_oven_moderate :: "(rat \<Rightarrow> jsstring) \<Rightarrow> jsnum \<Rightarrow> Stats \<Rightarrow> jsstring" where
  \<open>why_oven_moderate big v st =
     js ''Oven Temperature: value = '' @
     toFixed big v 0 @
     js '' '' @
     [176] @
     js ''F, mean = '' @
     toFixed big (mean st) 0 @
     js '' '' @
     [176] @
     js ''F. Rule: considered "moderate" if within historical min'' @
     [8211] @
     js ''max.''\<close>

definition bullet_compression_ok :: "(rat \<Rightarrow> jsstring) \<Rightarrow> jsnum \<Rightarrow> Stats \<Rightarrow> jsstring" where
  \<open>bullet_compression_ok big v st =
     js ''Compression set ('' @
     toFixed big v 1 @
     js '' %) is at or below the dataset mean ('' @
     toFixed big (mean st) 1 @
     js '' %), which is favourable for long-term sealing and lower scrap risk.''\<close>

definition why_compression_ok :: "(rat \<Rightarrow> jsstring) \<Rightarrow> jsnum \<Rightarrow> Stats \<Rightarrow> jsstring" where
  \<open>why_compression_ok big v st =
     js ''Compression Set: value = '' @
     toFixed big v 1 @
     js '' %, mean = '' @
     toFixed big (mean st) 1 @
     js '' %. Rule: "favourable" if value '' @
     [8804] @
     js '' mean.''\<close>

definition bullet_compression_high :: "(rat \<Rightarrow> jsstring) \<Rightarrow> jsnum \<Rightarrow> Stats \<Rightarrow> jsstring" where
  \<open>bullet_compression_high big v st =
     js ''Compression set ('' @
     toFixed big v 1 @
     js '' %) is higher than typical (mean '' @
     toFixed big (mean st) 1 @
     js '' %). When changing formulation, you may want to bias towards regions where compression set trends lower, even if it costs a small amount of elongation.''\<close>

definition why_compression_high :: "(rat \<Rightarrow> jsstring) \<Rightarrow> jsnum \<Rightarrow> Stats \<Rightarrow> jsstring" where
  \<open>why_compression_high big v st =
     js ''Compression Set: value = '' @
     toFixed big v 1 @
     js '' %, mean = '' @
     toFixed big (mean st) 1 @
     js '' %. Rule: "high" if value > mean.''\<close>

definition bullet_elongation_high :: "(rat \<Rightarrow> jsstring) \<Rightarrow> jsnum \<Rightarrow> Stats \<Rightarrow> jsstring" where
  \<open>bullet_elongation_high big v st =
     js ''Elongation ('' @
     toFixed big v 1 @
     js '' %) is in the upper half of the dataset (mean '' @
     toFixed big (mean st) 1 @
     js '' %). That gives some headroom to trade a little elongation for cost or compression-set improvements.''\<close>

definition why_elongation_high :: "(rat \<Rightarrow> jsstring) \<Rightarrow> jsnum \<Rightarrow> Stats \<Rightarrow> jsstring" where
  \<open>why_elongation_high big v st =
     js ''Elongation: value = '' @
     toFixed big v 1 @
     js '' %, mean = '' @
     toFixed big (mean st) 1 @
     js '' %. Rule: "high" if value > 1.15'' @
     [215] @
     js ''mean ('' @
     toFixed big (highThreshold st) 1 @
     js '').''\<close>

definition bullet_elongation_low :: "(rat \<Rightarrow> jsstring) \<Rightarrow> jsnum \<Rightarrow> Stats \<Rightarrow> jsstring" where
  \<open>bullet_elongation_low big v st =
     js ''Elongation ('' @
     toFixed big v 1 @
     js '' %) is lower than typical. When pushing cost down, it will be important to watch this metric so it does not erode further.''\<close>

definition why_elongation_low :: "(rat \<Rightarrow> jsstring) \<Rightarrow> jsnum \<Rightarrow> Stats \<Rightarrow> jsstring" where
  \<open>why_elongation_low big v st =
     js ''Elongation: value = '' @
     toFixed big v 1 @
     js '' %, mean = '' @
     toFixed big (mean st) 1 @
     js '' %. Rule: "low" if value < 0.85'' @
     [215] @
     js ''mean ('' @
     toFixed big (lowThreshold st) 1 @
     js '').''\<close>

definition bullet_field_fallback :: jsstring where
  \<open>bullet_field_fallback =
     js ''Mechanical performance sits near the centre of the historical cloud. Future trials can explore small movements along the cost / cure-time axes while monitoring compression set and elongation.''\<close>

definition why_field_fallback :: jsstring where
  \<open>why_field_fallback =
     js ''No major performance outliers detected for Compression Set or Elongation (both within '' @
     [177] @
     js ''15% of historical means).''\<close>

subsection \<open>The rules\<close>

text \<open>
  Each block of the function reads one property of the anchor, does nothing when it is
  \<open>undefined\<close>, and otherwise pushes at most one bullet together with its "why" line.
  A block is modelled by the list of the pairs it pushes.
\<close>

definition coAgent1_rule ::
    "(rat \<Rightarrow> jsstring) \<Rightarrow> Experiment \<Rightarrow> Stats \<Rightarrow> (jsstring \<times> jsstring) list" where
  "coAgent1_rule big anchor st =
     (case inputs anchor (js ''Co-Agent 1'') of
        None \<Rightarrow> []
      | Some v \<Rightarrow>
          if high v st then [(bullet_coAgent1_high big v st, why_coAgent1_high big v st)]
          else if low v st then [(bullet_coAgent1_low big v st, why_coAgent1_low big v st)]
          else [])"

definition coAgent2_rule ::
    "(rat \<Rightarrow> jsstring) \<Rightarrow> Experiment \<Rightarrow> Stats \<Rightarrow> (jsstring \<times> jsstring) list" where
  "coAgent2_rule big anchor st =
     (case inputs anchor (js ''Co-Agent 2'') of
        None \<Rightarrow> []
      | Some v \<Rightarrow>
          if high v st then [(bullet_coAgent2_high big v st, why_coAgent2_high big v st)]
          else [])"

definition carbonBlack_rule ::
    "(rat \<Rightarrow> jsstring) \<Rightarrow> Experiment \<Rightarrow> Stats \<Rightarrow> (jsstring \<times> jsstring) list" where
  "carbonBlack_rule big anchor st =
     (case inputs anchor (js ''Carbon Black High Grade'') of
        None \<Rightarrow> []
      | Some v \<Rightarrow>
          if high v st then [(bullet_carbonBlack_high big v st, why_carbonBlack_high big v st)]
          else [])"

definition cureTime_rule ::
    "(rat \<Rightarrow> jsstring) \<Rightarrow> Experiment \<Rightarrow> Stats \<Rightarrow> (jsstring \<times> jsstring) list" where
  "cureTime_rule big anchor st =
     (case outputs anchor (js ''Cure Time'') of
        None \<Rightarrow> []
      | Some v \<Rightarrow>
          if high v st then [(bullet_cureTime_slow big v st, why_cureTime_slow big v st)]
          else [(bullet_cureTime_ok big v st, why_cureTime_ok big v st)])"

definition oven_rule ::
    "(rat \<Rightarrow> jsstring) \<Rightarrow> Experiment \<Rightarrow> Stats \<Rightarrow> (jsstring \<times> jsstring) list" where
  "oven_rule big anchor st =
     (case inputs anchor (js ''Oven Temperature'') of
        None \<Rightarrow> []
      | Some v \<Rightarrow>
          if high v st then [(bullet_oven_high big v st, why_oven_high big v st)]
          else [(bullet_oven_moderate big v st, why_oven_moderate big v st)])"

definition compression_rule ::
    "(rat \<Rightarrow> jsstring) \<Rightarrow> Experiment \<Rightarrow> Stats \<Rightarrow> (jsstring \<times> jsstring) list" where
  "compression_rule big anchor st =
     (case outputs anchor (js ''Compression Set'') of
        None \<Rightarrow> []
      | Some v \<Rightarrow>
          if jle v (mean st) then [(bullet_compression_ok big v st, why_compression_ok big v st)]
          else [(bullet_compression_high big v st, why_compression_high big v st)])"

definition elongation_rule ::
    "(rat \<Rightarrow> jsstring) \<Rightarrow> Experiment \<Rightarrow> Stats \<Rightarrow> (jsstring \<times> jsstring) list" where
  "elongation_rule big anchor st =
     (case outputs anchor (js ''Elongation'') of
        None \<Rightarrow> []
      | Some v \<Rightarrow>
          if high v st then [(bullet_elongation_high big v st, why_elongation_high big v st)]
          else if low v st then [(bullet_elongation_low big v st, why_elongation_low big v st)]
          else [])"

text \<open>
  The three categories. Cost and field performance end with
  \<open>if (!bullets.length) push(fallback)\<close>; the cure category has no such block.
\<close>

definition cost_lines ::
    "(rat \<Rightarrow> jsstring) \<Rightarrow> Experiment \<Rightarrow> Experiment list \<Rightarrow> (jsstring \<times> jsstring) list" where
  "cost_lines big anchor allExperiments =
     (let coAgent1Stats = statsForField allExperiments (js ''Co-Agent 1'') Input;
          coAgent2Stats = statsForField allExperiments (js ''Co-Agent 2'') Input;
          carbonBlackHighStats = statsForField allExperiments (js ''Carbon Black High Grade'') Input;
          pushed = coAgent1_rule big anchor coAgent1Stats @
                   coAgent2_rule big anchor coAgent2Stats @
                   carbonBlack_rule big anchor carbonBlackHighStats
      in if length pushed = 0 then [(bullet_cost_fallback, why_cost_fallback)] else pushed)"

definition cure_lines ::
    "(rat \<Rightarrow> jsstring) \<Rightarrow> Experiment \<Rightarrow> Experiment list \<Rightarrow> (jsstring \<times> jsstring) list" where
  "cure_lines big anchor allExperiments =
     (let ovenStats = statsForField allExperiments (js ''Oven Temperature'') Input;
          cureTimeStats = statsForField allExperiments (js ''Cure Time'') Output
      in cureTime_rule big anchor cureTimeStats @ oven_rule big anchor ovenStats)"

definition field_lines ::
    "(rat \<Rightarrow> jsstring) \<Rightarrow> Experiment \<Rightarrow> Experiment list \<Rightarrow> (jsstring \<times> jsstring) list" where
  "field_lines big anchor allExperiments =
     (let compressionStats = statsForField allExperiments (js ''Compression Set'') Output;
          elongationStats = statsForField allExperiments (js ''Elongation'') Output;
          pushed = compression_rule big anchor compressionStats @
                   elongation_rule big anchor elongationStats
      in if length pushed = 0 then [(bullet_field_fallback, why_field_fallback)] else pushed)"

definition buildAdvisorSections ::
    "(rat \<Rightarrow> jsstring) \<Rightarrow> Experiment \<Rightarrow> Experiment list \<Rightarrow> AdvisorSection list" where
  "buildAdvisorSections big anchor allExperiments =
     (let cost = cost_lines big anchor allExperiments;
          cure = cure_lines big anchor allExperiments;
          field = field_lines big anchor allExperiments
      in [\<lparr>sec_id = js ''cost'', sec_title = js ''Cost levers'',
           sec_bullets = map fst cost, sec_why = join [10] (map snd cost)\<rparr>,
          \<lparr>sec_id = js ''cure'', sec_title = js ''Cure time & oven utilisation'',
           sec_bullets = map fst cure, sec_why = join [10] (map snd cure)\<rparr>,
          \<lparr>sec_id = js ''field'', sec_title = js ''Field performance & scrap'',
           sec_bullets = map fst field, sec_why = join [10] (map snd field)\<rparr>])"


section \<open>The range histogram (\<open>MeasurementRange\<close>)\<close>

text \<open>
  \<open>buildHistogramData\<close> reads the module-level array \<open>experiments\<close>, here its second
  argument. \<open>binCount\<close> is an integer (the only caller leaves it at its default, 6).
  Reading \<open>.count\<close> of an array slot that does not exist raises a TypeError, and an array
  cannot grow beyond \<open>2^32 - 1\<close> elements: \<open>push\<close> raises a RangeError there. Below that
  length the loop counter and \<open>binCount - 1\<close> are exact integers.
\<close>

datatype js_error = TypeError | RangeError

record HistogramBin =
  binLabel :: jsstring
  count :: nat

record HistogramData =
  bins :: "HistogramBin list"
  matchingCount :: nat

text \<open>
  The closed interval \<open>[lo, hi]\<close> of the extended number line, as the specification's
  "inside the range, inclusive" reads, for comparison with \<open>in_window\<close> below: NaN lies in
  no interval and bounds none.
\<close>

fun below :: "jsnum \<Rightarrow> jsnum \<Rightarrow> bool" where
  "below (Fin a) (Fin b) \<longleftrightarrow> a \<le> b"
| "below NInf (Fin b) \<longleftrightarrow> True"
| "below NInf NInf \<longleftrightarrow> True"
| "below NInf PInf \<longleftrightarrow> True"
| "below (Fin a) PInf \<longleftrightarrow> True"
| "below PInf PInf \<longleftrightarrow> True"
| "below x y \<longleftrightarrow> False"


definition in_window :: "jsstring \<Rightarrow> jsnum \<Rightarrow> jsnum \<Rightarrow> Experiment \<Rightarrow> bool" where
  "in_window outputKey minOut maxOut ex =
     (let outVal = outputs ex outputKey
      in not_nullish outVal \<and> \<not> number_isNaN outVal \<and>
         (case outVal of None \<Rightarrow> False | Some x \<Rightarrow> jge x minOut \<and> jle x maxOut))"

fun collect_values :: "jsstring \<Rightarrow> Experiment list \<Rightarrow> jsnum list" where
  "collect_values inputKey [] = []"
| "collect_values inputKey (ex # rest) =
     (let v = inputs ex inputKey
      in if not_nullish v \<and> \<not> number_isNaN v
         then (case v of None \<Rightarrow> [] | Some x \<Rightarrow> [x]) @ collect_values inputKey rest
         else collect_values inputKey rest)"

definition raw_bin ::
    "(rat \<Rightarrow> jsstring) \<Rightarrow> jsnum \<Rightarrow> jsnum \<Rightarrow> jsnum \<Rightarrow> int \<Rightarrow> int \<Rightarrow> HistogramBin" where
  "raw_bin big minVal maxVal step binCount i =
     (let start = jadd minVal (jmul (Fin (of_int i)) step);
          end_v = (if i = binCount - 1 then maxVal else jadd start step)
      in \<lparr>binLabel = toFixed big start 1 @ [8211] @ toFixed big end_v 1, count = 0\<rparr>)"

text \<open>
  \<open>rawBins[index]\<close> for a number \<open>index\<close>: the slot when \<open>index\<close> is an integer from 0
  below the length, \<open>undefined\<close> otherwise (for NaN, an infinity or a negative number).
\<close>

definition bin_index :: "HistogramBin list \<Rightarrow> jsnum \<Rightarrow> nat option" where
  "bin_index rawBins index =
     (case index of
        Fin q \<Rightarrow> if of_int \<lfloor>q\<rfloor> = q \<and> 0 \<le> q \<and> nat \<lfloor>q\<rfloor> < length rawBins
                 then Some (nat \<lfloor>q\<rfloor>) else None
      | _ \<Rightarrow> None)"

fun count_values ::
    "jsnum \<Rightarrow> jsnum \<Rightarrow> int \<Rightarrow> jsnum list \<Rightarrow> HistogramBin list \<Rightarrow> js_error + HistogramBin list" where
  "count_values minVal step binCount [] rawBins = Inr rawBins"
| "count_values minVal step binCount (v # vs) rawBins =
     (let index0 = math_floor (jdiv (jsub v minVal) step);
          index = (if jge index0 (Fin (of_int binCount)) then Fin (of_int (binCount - 1))
                   else index0)
      in case bin_index rawBins index of
           None \<Rightarrow> Inl TypeError
         | Some k \<Rightarrow>
             count_values minVal step binCount vs
               (rawBins[k := (rawBins ! k)\<lparr>count := count (rawBins ! k) + 1\<rparr>]))"

definition buildHistogramData ::
    "(rat \<Rightarrow> jsstring) \<Rightarrow> Experiment list \<Rightarrow> jsstring \<Rightarrow> jsstring \<Rightarrow> jsnum \<Rightarrow> jsnum \<Rightarrow> int
       \<Rightarrow> js_error + HistogramData" where
  "buildHistogramData big experiments inputKey outputKey minOut maxOut binCount =
     (let filtered = filter (in_window outputKey minOut maxOut) experiments;
          matchingCount = length filtered
      in if matchingCount = 0 then Inr \<lparr>bins = [], matchingCount = 0\<rparr>
         else
           let values = collect_values inputKey filtered
           in if length values = 0 then Inr \<lparr>bins = [], matchingCount = matchingCount\<rparr>
              else
                let minVal = math_min values;
                    maxVal = math_max values
                in if jeq minVal maxVal
                   then Inr \<lparr>bins = [\<lparr>binLabel = toFixed big minVal 2, count = length values\<rparr>],
                             matchingCount = matchingCount\<rparr>
                   else if 4294967295 < binCount then Inl RangeError
                   else
                     let step = jdiv (jsub maxVal minVal) (Fin (of_int binCount));
                         rawBins = map (raw_bin big minVal maxVal step binCount) [0..binCount - 1]
                     in case count_values minVal step binCount values rawBins of
                          Inl e \<Rightarrow> Inl e
                        | Inr bs \<Rightarrow> Inr \<lparr>bins = bs, matchingCount = matchingCount\<rparr>)"

section \<open>The parser of the model's reply (\<open>parseLlmSections\<close>)\<close>

record LlmSection =
  title :: jsstring
  bullets :: "jsstring list"

text \<open>\<open>s.replace(/^###\s*/, '')\<close>: a leading \<open>###\<close> and the white space after it go.\<close>

definition strip_header :: "jsstring \<Rightarrow> jsstring" where
  "strip_header s = (if take 3 s = [35, 35, 35] then dropWhile is_space (drop 3 s) else s)"

text \<open>
  \<open>s.split(/\n###\s*/)\<close>: the scan cuts wherever a line feed is followed by \<open>###\<close>,
  drops the white space after it and goes on from there. The pattern never matches the
  empty string, so the result always has at least one piece.
\<close>

function split_sections :: "jsstring \<Rightarrow> jsstring list" where
  "split_sections [] = [[]]"
| "split_sections (c # cs) =
     (if c = 10 \<and> take 3 cs = [35, 35, 35]
      then [] # split_sections (dropWhile is_space (drop 3 cs))
      else (case split_sections cs of [] \<Rightarrow> [[c]] | p # ps \<Rightarrow> (c # p) # ps))"
  by pat_completeness auto
termination
  by (relation "measure length")
     (auto simp add: less_Suc_eq_le intro: order_trans[OF length_dropWhile_le])

text \<open>\<open>s.split('\n')\<close>.\<close>

fun split_lines :: "jsstring \<Rightarrow> jsstring list" where
  "split_lines [] = [[]]"
| "split_lines (c # cs) =
     (if c = 10 then [] # split_lines cs
      else (case split_lines cs of [] \<Rightarrow> [[c]] | p # ps \<Rightarrow> (c # p) # ps))"

text \<open>
  \<open>line.replace(/^\d+\.\s*/, '')\<close>: the pattern matches when the leading run of digits is
  not empty and a dot follows it; the match takes the white space after the dot too.
\<close>

definition strip_marker :: "jsstring \<Rightarrow> jsstring" where
  "strip_marker line =
     (let ds = takeWhile is_digit line;
          rest = dropWhile is_digit line
      in if ds \<noteq> [] \<and> take 1 rest = [46] then dropWhile is_space (drop 1 rest) else line)"

fun collect_bullets :: "jsstring list \<Rightarrow> jsstring list" where
  "collect_bullets [] = []"
| "collect_bullets (line # rest) =
     (if line = [] then collect_bullets rest
      else let cleaned = trim (strip_marker line)
           in if cleaned \<noteq> [] then cleaned # collect_bullets rest else collect_bullets rest)"

text \<open>The body of the loop over the raw sections; \<open>None\<close> is its \<open>continue\<close>.\<close>

definition parse_block :: "jsstring \<Rightarrow> LlmSection option" where
  "parse_block raw =
     (case map trim (split_lines raw) of
        [] \<Rightarrow> None
      | first # bodyLines \<Rightarrow>
          if first = [] then None
          else let found = collect_bullets bodyLines;
                   whole = trim (join [32] bodyLines)
               in Some \<lparr>title = first,
                        bullets = (if length found = 0 \<and> whole \<noteq> [] then found @ [whole]
                                   else found)\<rparr>)"

definition parseLlmSections :: "jsstring \<Rightarrow> LlmSection list" where
  "parseLlmSections text =
     (let trimmed = trim text
      in if trimmed = [] then []
         else List.map_filter parse_block (split_sections (strip_header trimmed)))"

section \<open>Properties of the number model\<close>

subsection \<open>Evaluation helpers\<close>

lemma floor_rat_numeral [simp]: "\<lfloor>numeral a / numeral b :: rat\<rfloor> = numeral a div numeral b"
  using floor_divide_of_int_eq[of "numeral a" "numeral b", where ?'a = rat] by simp

lemma floor_rat_neg_numeral [simp]:
  "\<lfloor>- (numeral a / numeral b) :: rat\<rfloor> = - numeral a div numeral b"
  using floor_divide_of_int_eq[of "- numeral a" "numeral b", where ?'a = rat] by simp

lemma digits_small: "n < 10 \<Longrightarrow> digits n = [48 + n]"
  by (simp add: digits.simps)

lemma digits_big: "\<not> n < 10 \<Longrightarrow> digits n = digits (n div 10) @ [48 + n mod 10]"
  by (subst digits.simps) simp

subsection \<open>The binary exponent\<close>

lemma pow2_less_iff: "(2::rat) powi a < 2 powi b \<longleftrightarrow> a < b"
proof
  assume h: "(2::rat) powi a < 2 powi b"
  show "a < b"
  proof (rule ccontr)
    assume "\<not> a < b"
    then have "b \<le> a" by simp
    then have "(2::rat) powi b \<le> 2 powi a" by (intro power_int_increasing) simp_all
    with h show False by simp
  qed
next
  assume "a < b"
  then show "(2::rat) powi a < 2 powi b" by (intro power_int_strict_increasing) simp_all
qed

lemma pow2_le_iff: "(2::rat) powi a \<le> 2 powi b \<longleftrightarrow> a \<le> b"
  using pow2_less_iff[of b a] by (auto simp: not_less[symmetric])

lemma pow2_int_bounds:
  fixes p :: int
  assumes "0 < p"
  shows "(2::rat) powi (bitlen p - 1) \<le> of_int p" and "of_int p < (2::rat) powi (bitlen p)"
proof -
  have b: "1 \<le> bitlen p" using assms by (simp add: bitlen_alt_def)
  from bitlen_bounds[OF assms] have lo: "2 ^ nat (bitlen p - 1) \<le> p" and hi: "p < 2 ^ nat (bitlen p)"
    by auto
  have "(of_int (2 ^ nat (bitlen p - 1)) :: rat) \<le> of_int p" using lo by (simp only: of_int_le_iff)
  then show "(2::rat) powi (bitlen p - 1) \<le> of_int p"
    using b by (simp add: power_int_def)
  have "(of_int p :: rat) < of_int (2 ^ nat (bitlen p))" using hi by (simp only: of_int_less_iff)
  then show "of_int p < (2::rat) powi (bitlen p)"
    using b by (simp add: power_int_def)
qed

lemma ilog2_raw:
  assumes "0 < a" and "quotient_of a = (p, q)"
  shows "2 powi (bitlen p - bitlen q - 1) < a" and "a < 2 powi (bitlen p - bitlen q + 1)"
proof -
  have q: "0 < q" using assms(2) by (rule quotient_of_denom_pos)
  have a: "a = of_int p / of_int q" using assms(2) by (rule quotient_of_div)
  have p: "0 < p" using assms(1) q unfolding a by (simp add: zero_less_divide_iff)
  note P = pow2_int_bounds[OF p] and Q = pow2_int_bounds[OF q]
  have qq: "(0::rat) < of_int q" using q by simp
  have "(2::rat) powi (bitlen p - bitlen q - 1) = 2 powi (bitlen p - 1) / 2 powi (bitlen q)"
    by (simp add: power_int_diff)
  also have "\<dots> \<le> of_int p / 2 powi (bitlen q)"
    using P(1) by (simp add: divide_right_mono)
  also have "\<dots> < of_int p / of_int q"
    using Q(2) p qq by (simp add: divide_strict_left_mono)
  finally show "2 powi (bitlen p - bitlen q - 1) < a" unfolding a .
  have "of_int p / of_int q < (2::rat) powi (bitlen p) / of_int q"
    using P(2) qq by (simp add: divide_strict_right_mono)
  also have "\<dots> \<le> 2 powi (bitlen p) / 2 powi (bitlen q - 1)"
    using Q(1) qq by (intro divide_left_mono) simp_all
  also have "\<dots> = 2 powi (bitlen p - bitlen q + 1)"
    by (simp add: power_int_diff power_int_add)
  finally show "a < 2 powi (bitlen p - bitlen q + 1)" unfolding a .
qed

lemma ilog2_bounds:
  assumes "0 < a"
  shows "2 powi (ilog2 a) \<le> a" and "a < 2 powi (ilog2 a + 1)"
proof -
  obtain p q where pq: "quotient_of a = (p, q)" by (cases "quotient_of a")
  note R = ilog2_raw[OF assms pq]
  show "2 powi (ilog2 a) \<le> a"
    using R(1) by (simp add: ilog2_def pq Let_def)
  show "a < 2 powi (ilog2 a + 1)"
    using R(2) by (auto simp add: ilog2_def pq Let_def not_le)
qed

lemma ilog2_unique:
  assumes "2 powi e \<le> a" and "a < 2 powi (e + 1)"
  shows "ilog2 a = e"
proof -
  have a: "0 < a" using assms(1) by (rule less_le_trans[rotated]) simp
  note B = ilog2_bounds[OF a]
  have "2 powi e < (2::rat) powi (ilog2 a + 1)" using assms(1) B(2) by simp
  then have 1: "e < ilog2 a + 1" by (simp only: pow2_less_iff)
  have "2 powi (ilog2 a) < (2::rat) powi (e + 1)" using assms(2) B(1) by simp
  then have 2: "ilog2 a < e + 1" by (simp only: pow2_less_iff)
  from 1 2 show ?thesis by simp
qed

lemma ilog2_mono:
  assumes "0 < a" and "a \<le> b"
  shows "ilog2 a \<le> ilog2 b"
proof -
  have b: "0 < b" using assms by simp
  have "2 powi (ilog2 a) < (2::rat) powi (ilog2 b + 1)"
    using ilog2_bounds(1)[OF assms(1)] ilog2_bounds(2)[OF b] assms(2) by simp
  then show ?thesis by (simp add: pow2_less_iff)
qed

subsection \<open>Rounding to the nearest binary64 value\<close>

lemma rne_of_int [simp]: "rne (of_int n) = n"
  by (simp add: rne_def)

lemma rne_bounds: "\<lfloor>t\<rfloor> \<le> rne t" "rne t \<le> \<lfloor>t\<rfloor> + 1"
  by (simp_all add: rne_def Let_def)

lemma rne_mono:
  assumes "s \<le> t"
  shows "rne s \<le> rne t"
proof (cases "\<lfloor>s\<rfloor> = \<lfloor>t\<rfloor>")
  case True
  then show ?thesis using assms by (auto simp add: rne_def Let_def)
next
  case False
  with floor_mono[OF assms] have "\<lfloor>s\<rfloor> + 1 \<le> \<lfloor>t\<rfloor>" by simp
  with rne_bounds(2)[of s] rne_bounds(1)[of t] show ?thesis by linarith
qed

lemma rne_err: "\<bar>of_int (rne t) - t\<bar> \<le> 1 / 2"
proof -
  have "of_int \<lfloor>t\<rfloor> \<le> t" "t < of_int \<lfloor>t\<rfloor> + 1" by linarith+
  then show ?thesis by (auto simp add: rne_def Let_def abs_le_iff)
qed

lemma rne_0 [simp]: "rne 0 = 0"
  by (simp add: rne_def)

lemma rne_nonneg: "0 \<le> t \<Longrightarrow> 0 \<le> rne t"
  using rne_mono[of 0 t] by simp

lemma pow2_shift: "(2::rat) powi k * 2 powi (e - 52) = 2 powi (e + (k - 52))"
proof -
  have "(2::rat) powi k * 2 powi (e - 52) = 2 powi (k + (e - 52))"
    by (simp add: power_int_add)
  also have "\<dots> = 2 powi (e + (k - 52))"
    by (rule arg_cong[where f = "\<lambda>x. 2 powi x"]) simp
  finally show ?thesis .
qed

lemma rnd_mag_alt: "rnd_mag a = of_int (rne (a / 2 powi (expo a - 52))) * 2 powi (expo a - 52)"
  by (simp add: rnd_mag_def Let_def)

lemma rnd_mag_nonneg: "0 \<le> a \<Longrightarrow> 0 \<le> rnd_mag a"
  unfolding rnd_mag_alt by (intro mult_nonneg_nonneg) (simp_all add: rne_nonneg)

lemma expo_mono: "0 < a \<Longrightarrow> a \<le> b \<Longrightarrow> expo a \<le> expo b"
  using ilog2_mono[of a b] by (simp add: expo_def)

lemma expo_upper: assumes "0 < a" shows "a < 2 powi (expo a + 1)"
proof -
  have "a < 2 powi (ilog2 a + 1)" using assms by (rule ilog2_bounds)
  also have "\<dots> \<le> 2 powi (expo a + 1)" by (simp add: pow2_le_iff expo_def)
  finally show ?thesis .
qed

lemma rnd_mag_upper: assumes "0 < a" shows "rnd_mag a \<le> 2 powi (expo a + 1)"
proof -
  let ?u = "(2::rat) powi (expo a - 52)"
  have u: "0 < ?u" by simp
  have "a / ?u \<le> 2 powi (expo a + 1) / ?u"
    using expo_upper[OF assms] u by (simp add: divide_right_mono)
  also have "\<dots> = 2 powi 53" by (simp add: power_int_diff[symmetric])
  also have "\<dots> = of_int (2 ^ 53)" by simp
  finally have "rne (a / ?u) \<le> rne (of_int (2 ^ 53))" by (rule rne_mono)
  then have "rne (a / ?u) \<le> 2 ^ 53" by (simp only: rne_of_int)
  then have "(of_int (rne (a / ?u)) :: rat) \<le> of_int (2 ^ 53)" by (simp only: of_int_le_iff)
  then have "of_int (rne (a / ?u)) * ?u \<le> of_int (2 ^ 53) * ?u"
    using u by (simp only: mult_le_cancel_right_pos)
  also have "of_int (2 ^ 53) * ?u = 2 powi 53 * ?u" by simp
  also have "\<dots> = 2 powi (expo a + 1)" using pow2_shift[of 53 "expo a"] by simp
  finally show ?thesis unfolding rnd_mag_alt .
qed

lemma rnd_mag_lower: assumes "2 powi (expo a) \<le> a" shows "2 powi (expo a) \<le> rnd_mag a"
proof -
  let ?u = "(2::rat) powi (expo a - 52)"
  have u: "0 < ?u" by simp
  have "of_int (2 ^ 52) = (2::rat) powi 52" by simp
  also have "\<dots> = 2 powi (expo a) / ?u" by (simp add: power_int_diff[symmetric])
  also have "\<dots> \<le> a / ?u" using assms u by (simp add: divide_right_mono)
  finally have "rne (of_int (2 ^ 52)) \<le> rne (a / ?u)" by (rule rne_mono)
  then have "2 ^ 52 \<le> rne (a / ?u)" by (simp only: rne_of_int)
  then have "(of_int (2 ^ 52) :: rat) \<le> of_int (rne (a / ?u))" by (simp only: of_int_le_iff)
  then have le: "of_int (2 ^ 52) * ?u \<le> of_int (rne (a / ?u)) * ?u"
    using u by (simp only: mult_le_cancel_right_pos)
  have "2 powi (expo a) = 2 powi 52 * ?u" using pow2_shift[of 52 "expo a"] by simp
  also have "\<dots> = of_int (2 ^ 52) * ?u" by simp
  also note le
  finally show ?thesis unfolding rnd_mag_alt .
qed

lemma rnd_mag_mono:
  assumes "0 < a" and "a \<le> b"
  shows "rnd_mag a \<le> rnd_mag b"
proof (cases "expo a = expo b")
  case True
  let ?u = "(2::rat) powi (expo b - 52)"
  have u: "0 < ?u" by simp
  have "a / ?u \<le> b / ?u" using assms(2) u by (simp add: divide_right_mono)
  then have "rne (a / ?u) \<le> rne (b / ?u)" by (rule rne_mono)
  then have "(of_int (rne (a / ?u)) :: rat) \<le> of_int (rne (b / ?u))" by (simp only: of_int_le_iff)
  then show ?thesis unfolding rnd_mag_alt True using u by (simp only: mult_le_cancel_right_pos)
next
  case False
  have b: "0 < b" using assms by simp
  from False expo_mono[OF assms] have lt: "expo a + 1 \<le> expo b" by simp
  then have "- 1022 < expo b" unfolding expo_def by simp
  then have eb: "expo b = ilog2 b" unfolding expo_def by simp
  have "rnd_mag a \<le> 2 powi (expo a + 1)" using assms(1) by (rule rnd_mag_upper)
  also have "\<dots> \<le> 2 powi (expo b)" using lt by (simp only: pow2_le_iff)
  also have "\<dots> \<le> rnd_mag b"
    by (rule rnd_mag_lower) (simp add: eb ilog2_bounds(1)[OF b])
  finally show ?thesis .
qed

lemma rnd_mag_err: "\<bar>rnd_mag a - a\<bar> \<le> 2 powi (expo a - 53)"
proof -
  let ?u = "(2::rat) powi (expo a - 52)"
  have u: "0 < ?u" by simp
  have "rnd_mag a - a = (of_int (rne (a / ?u)) - a / ?u) * ?u"
    unfolding rnd_mag_alt using u by (simp add: left_diff_distrib)
  then have "\<bar>rnd_mag a - a\<bar> = \<bar>of_int (rne (a / ?u)) - a / ?u\<bar> * \<bar>?u\<bar>"
    by (simp only: abs_mult)
  also have "\<dots> = \<bar>of_int (rne (a / ?u)) - a / ?u\<bar> * ?u"
    using u by (simp only: abs_of_pos)
  also have "\<dots> \<le> 1 / 2 * ?u" using rne_err[of "a / ?u"] u by (simp only: mult_le_cancel_right_pos)
  also have "\<dots> = 2 powi (expo a - 53)"
    by (simp add: power_int_diff)
  finally show ?thesis .
qed

lemma rnd_mag_exact:
  assumes n: "0 < n" "n < 2 ^ 53" and k: "- 1074 \<le> k"
  shows "rnd_mag (of_int n * 2 powi k) = of_int n * 2 powi k"
proof -
  let ?a = "of_int n * (2::rat) powi k"
  let ?e = "expo ?a"
  have a: "0 < ?a" using n(1) by simp
  have "(of_int n :: rat) < of_int (2 ^ 53)" using n(2) by (simp only: of_int_less_iff)
  then have "(of_int n :: rat) < 2 powi 53" by simp
  then have "?a < 2 powi 53 * 2 powi k" by (simp only: mult_less_cancel_right_pos zero_less_power_int zero_less_numeral)
  also have "\<dots> = 2 powi (53 + k)" by (simp add: power_int_add)
  finally have up: "?a < 2 powi (53 + k)" .
  have "2 powi (ilog2 ?a) < (2::rat) powi (53 + k)"
    using ilog2_bounds(1)[OF a] up by (rule le_less_trans)
  then have "ilog2 ?a < 53 + k" by (simp only: pow2_less_iff)
  with k have e: "?e \<le> 52 + k" by (simp add: expo_def)
  define d where "d = nat (k - (?e - 52))"
  have d: "int d = k - (?e - 52)" using e by (simp add: d_def)
  have "?a / 2 powi (?e - 52) = of_int n * (2 powi k / 2 powi (?e - 52))" by simp
  also have "2 powi k / (2::rat) powi (?e - 52) = 2 powi (k - (?e - 52))"
    by (simp add: power_int_diff)
  also have "\<dots> = 2 powi (int d)" by (simp only: d)
  also have "\<dots> = 2 ^ d" by simp
  finally have q: "?a / 2 powi (?e - 52) = of_int (n * 2 ^ d)" by simp
  have "rnd_mag ?a = of_int (n * 2 ^ d) * 2 powi (?e - 52)"
    unfolding rnd_mag_alt q rne_of_int ..
  also have "\<dots> = ?a / 2 powi (?e - 52) * 2 powi (?e - 52)" by (simp only: q)
  also have "\<dots> = ?a" by simp
  finally show ?thesis .
qed

lemma rnd_pos: "0 < q \<Longrightarrow> rnd q = (if 2 ^ 1024 \<le> rnd_mag q then PInf else Fin (rnd_mag q))"
  by (simp add: rnd_def Let_def)

lemma rnd_neg: "q < 0 \<Longrightarrow> rnd q = (if 2 ^ 1024 \<le> rnd_mag (- q) then NInf else Fin (- rnd_mag (- q)))"
  by (simp add: rnd_def Let_def)

lemma rnd_0 [simp]: "rnd 0 = Fin 0"
  by (simp add: rnd_def)

lemma rnd_neq_NaN [simp]: "rnd q \<noteq> NaN"
  by (simp add: rnd_def Let_def)

lemma rnd_mono:
  assumes "a \<le> b"
  shows "jle (rnd a) (rnd b)"
proof -
  consider "0 < a" | "a = 0" "b = 0" | "a = 0" "0 < b" | "a < 0" "0 < b" | "a < 0" "b = 0" | "b < 0"
    using assms by linarith
  then show ?thesis
  proof cases
    case 1
    then have b: "0 < b" using assms by simp
    from rnd_mag_mono[OF 1 assms] show ?thesis
      by (simp add: rnd_pos 1 b jle_def)
  next
    case 2
    then show ?thesis by (simp add: jle_def)
  next
    case 3
    with rnd_mag_nonneg[of b] show ?thesis by (simp add: rnd_pos jle_def)
  next
    case 4
    with rnd_mag_nonneg[of b] rnd_mag_nonneg[of "- a"] show ?thesis
      by (simp add: rnd_pos rnd_neg jle_def)
  next
    case 5
    with rnd_mag_nonneg[of "- a"] show ?thesis by (simp add: rnd_neg jle_def)
  next
    case 6
    then have a: "a < 0" using assms by simp
    have "rnd_mag (- b) \<le> rnd_mag (- a)" using 6 assms by (intro rnd_mag_mono) simp_all
    then show ?thesis by (simp add: rnd_neg 6 a jle_def)
  qed
qed

lemma rnd_exact_pos:
  assumes "0 < n" "n < 2 ^ 53" "- 1074 \<le> k" "k \<le> 971"
  shows "rnd (of_int n * 2 powi k) = Fin (of_int n * 2 powi k)"
proof -
  let ?a = "of_int n * (2::rat) powi k"
  have a: "0 < ?a" using assms(1) by simp
  have "(of_int n :: rat) < of_int (2 ^ 53)" using assms(2) by (simp only: of_int_less_iff)
  then have "(of_int n :: rat) < 2 powi 53" by simp
  then have "?a < 2 powi 53 * 2 powi k"
    by (simp only: mult_less_cancel_right_pos zero_less_power_int zero_less_numeral)
  also have "\<dots> = 2 powi (53 + k)" by (simp add: power_int_add)
  also have "\<dots> \<le> 2 powi 1024" using assms(4) by (simp only: pow2_le_iff)
  also have "\<dots> = 2 ^ 1024" by simp
  finally have lt: "?a < 2 ^ 1024" .
  have "\<not> 2 ^ 1024 \<le> ?a" using lt by (rule linorder_not_le[THEN iffD2])
  then have "\<not> 2 ^ 1024 \<le> rnd_mag ?a" unfolding rnd_mag_exact[OF assms(1-3)] .
  then have "rnd ?a = Fin (rnd_mag ?a)" unfolding rnd_pos[OF a] by (rule if_not_P)
  then show ?thesis unfolding rnd_mag_exact[OF assms(1-3)] .
qed

lemma rnd_int:
  assumes "\<bar>n\<bar> < 2 ^ 53"
  shows "rnd (of_int n) = Fin (of_int n)"
proof -
  consider "n = 0" | "0 < n" | "n < 0" by linarith
  then show ?thesis
  proof cases
    case 1 then show ?thesis by simp
  next
    case 2
    with assms rnd_exact_pos[of n 0] show ?thesis by simp
  next
    case 3
    with assms rnd_exact_pos[of "- n" 0] have "rnd (of_int (- n)) = Fin (of_int (- n))" by simp
    with 3 show ?thesis by (simp add: rnd_def Let_def split: if_splits)
  qed
qed

lemma rnd_overflow:
  assumes "2 ^ 1024 \<le> q"
  shows "rnd q = PInf"
proof -
  have q: "0 < q" using assms by (rule less_le_trans[rotated]) simp
  have "(2::rat) powi 1024 \<le> q" using assms by simp
  also have "q < 2 powi (ilog2 q + 1)" using q by (rule ilog2_bounds)
  finally have "1024 < ilog2 q + 1" by (simp only: pow2_less_iff)
  then have e: "expo q = ilog2 q" "1024 \<le> expo q" by (simp_all add: expo_def)
  have "(2::rat) ^ 1024 = 2 powi 1024" by simp
  also have "\<dots> \<le> 2 powi (expo q)" using e(2) by (simp only: pow2_le_iff)
  also have "\<dots> \<le> rnd_mag q"
    by (rule rnd_mag_lower) (simp add: e(1) ilog2_bounds(1)[OF q])
  finally show ?thesis using q by (simp add: rnd_pos)
qed

section \<open>The advisor's sections\<close>

lemma computeStats_Nil [simp]: "computeStats [] = \<lparr>mean = Fin 0, min_v = Fin 0, max_v = Fin 0\<rparr>"
  by (simp add: computeStats_def)

lemma statsForField_Nil [simp]:
  "statsForField [] field kind = \<lparr>mean = Fin 0, min_v = Fin 0, max_v = Fin 0\<rparr>"
  by (simp add: statsForField_def)

lemma cost_lines_nonempty: "cost_lines big anchor allExperiments \<noteq> []"
  by (simp add: cost_lines_def Let_def)

lemma field_lines_nonempty: "field_lines big anchor allExperiments \<noteq> []"
  by (simp add: field_lines_def Let_def)

text \<open>
  C7. For every anchor record and every dataset, \<open>buildAdvisorSections\<close> returns exactly
  three sections, and their ids are \<open>cost\<close>, \<open>cure\<close>, \<open>field\<close>, in this order.
\<close>

theorem buildAdvisorSections_three_ids:
  "length (buildAdvisorSections big anchor allExperiments) = 3 \<and>
   map sec_id (buildAdvisorSections big anchor allExperiments) =
     [js ''cost'', js ''cure'', js ''field'']"
  by (simp add: buildAdvisorSections_def Let_def)

text \<open>
  C1 says that each of the three sections has at least one bullet, for every anchor and
  dataset. The cost and the field section do (\<open>cost_lines_nonempty\<close>,
  \<open>field_lines_nonempty\<close>): each ends with a fallback push. The cure section has no
  fallback: for an anchor with neither \<open>Cure Time\<close> nor \<open>Oven Temperature\<close>, here the
  anchor with no property at all over the empty dataset, its bullets are the empty list.
\<close>

theorem cure_section_without_bullets:
  "map sec_bullets
     (buildAdvisorSections any_host \<lparr>exp_id = js ''a'', inputs = Map.empty, outputs = Map.empty\<rparr> [])
   = [[bullet_cost_fallback], [], [bullet_field_fallback]]"
  by (simp add: buildAdvisorSections_def Let_def cost_lines_def cure_lines_def field_lines_def
      coAgent1_rule_def coAgent2_rule_def carbonBlack_rule_def cureTime_rule_def oven_rule_def
      compression_rule_def elongation_rule_def)

section \<open>The reply parser\<close>

lemmas parser_eval =
  js_def trim_def is_space_def is_digit_def strip_header_def strip_marker_def
  parse_block_def parseLlmSections_def Let_def

lemma dropWhile_trimmed:
  "dropWhile P (rev (dropWhile P (rev (dropWhile P s)))) = rev (dropWhile P (rev (dropWhile P s)))"
  by (metis append_is_Nil_conv dropWhile_eq_self_iff dropWhile_idem hd_rev
      last_appendR rev_append rev_rev_ident takeWhile_dropWhile_id)

lemma trim_idem: "trim (trim s) = trim s"
  by (simp add: trim_def dropWhile_trimmed)

lemma split_lines_one: "10 \<notin> set s \<Longrightarrow> split_lines s = [s]"
  by (induction s) auto

lemma split_lines_two: "10 \<notin> set s \<Longrightarrow> split_lines (s @ 10 # t) = s # split_lines t"
  by (induction s) auto

lemma collect_bullets_no_empty: "[] \<notin> set (collect_bullets ls)"
  by (induction ls) (auto simp: Let_def)

lemma parse_block_sound:
  assumes "parse_block raw = Some s"
  shows "title s \<noteq> [] \<and> [] \<notin> set (bullets s)"
  using assms collect_bullets_no_empty
  by (auto simp: parse_block_def Let_def split: list.splits if_splits)

lemma in_map_filterD: "x \<in> set (List.map_filter f xs) \<Longrightarrow> \<exists>y \<in> set xs. f y = Some x"
  by (induction xs) (auto split: option.splits)

lemma parse_block_single_line:
  assumes "10 \<notin> set t" and "trim t \<noteq> []"
    and "10 \<notin> set l" and "trim l \<noteq> []" and "strip_marker (trim l) = trim l"
  shows "parse_block (t @ [10] @ l) = Some \<lparr>title = trim t, bullets = [trim l]\<rparr>"
  using assms by (simp add: parse_block_def split_lines_two split_lines_one trim_idem)

lemma parseLlmSections_empty: "parseLlmSections [] = []"
  by (simp add: parseLlmSections_def trim_def)

lemma parseLlmSections_reply:
  "parseLlmSections (js ''### A\<newline>1. x\<newline>2. y\<newline>### B\<newline>plain prose'') =
     [\<lparr>title = js ''A'', bullets = [js ''x'', js ''y'']\<rparr>,
      \<lparr>title = js ''B'', bullets = [js ''plain prose'']\<rparr>]"
  by (simp add: parser_eval)

text \<open>
  C9 says three things: the empty string gives no section; a block with no numbered bullets
  but a non-empty body gives exactly one bullet, the whole body; and the reply
  \<open>### A / 1. x / 2. y / ### B / plain prose\<close> (five lines) gives the section \<open>A\<close> with
  bullets \<open>x\<close>, \<open>y\<close> and the section \<open>B\<close> with the one bullet \<open>plain prose\<close>.
  The first and the third hold (\<open>parseLlmSections_empty\<close>, \<open>parseLlmSections_reply\<close>).
  The second is what the comment above the fallback in the function promises ("if the
  model gave us plain paragraphs instead of numbered bullets, we fall back to a single
  bullet that contains the whole text"), and the function misses it: the loop over the
  body pushes every non-empty line as a bullet, with or without a list marker, so the
  fallback is never reached for plain lines. A body of two plain lines gives two bullets.
\<close>

theorem plain_body_one_bullet_per_line:
  "parseLlmSections (js ''### B\<newline>foo\<newline>bar'') =
     [\<lparr>title = js ''B'', bullets = [js ''foo'', js ''bar'']\<rparr>]"
  by (simp add: parser_eval)

text \<open>
  C10. For every text, each section that \<open>parseLlmSections\<close> returns has a non-empty title
  and no empty string among its bullets; the list of bullets itself may be empty, as for a
  header with nothing under it.
\<close>

theorem parseLlmSections_sections_wellformed:
  "(\<forall>s \<in> set (parseLlmSections text). title s \<noteq> [] \<and> [] \<notin> set (bullets s)) \<and>
   parseLlmSections (js ''### A'') = [\<lparr>title = js ''A'', bullets = []\<rparr>]"
proof
  show "\<forall>s \<in> set (parseLlmSections text). title s \<noteq> [] \<and> [] \<notin> set (bullets s)"
    using parse_block_sound
    by (auto simp add: parseLlmSections_def Let_def simp del: split_sections.simps
        dest!: in_map_filterD)
next
  show "parseLlmSections (js ''### A'') = [\<lparr>title = js ''A'', bullets = []\<rparr>]"
    by (simp add: parser_eval)
qed

theorem parseLlmSections_sections_wellformed_witness:
  "\<lparr>title = js ''A'', bullets = [js ''x'']\<rparr> \<in> set (parseLlmSections (js ''### A\<newline>1. x'')) \<and>
   title \<lparr>title = js ''A'', bullets = [js ''x'']\<rparr> \<noteq> [] \<and>
   [] \<notin> set (bullets \<lparr>title = js ''A'', bullets = [js ''x'']\<rparr>)"
proof -
  have m: "\<lparr>title = js ''A'', bullets = [js ''x'']\<rparr> \<in> set (parseLlmSections (js ''### A\<newline>1. x''))"
    by (simp add: parser_eval)
  with parseLlmSections_sections_wellformed[of "js ''### A\<newline>1. x''"] show ?thesis
    by blast
qed

section \<open>computeStats\<close>

lemma finite_values_Cons:
  "finite_values (v # vs) = (case v of Some (Fin a) \<Rightarrow> a # finite_values vs | _ \<Rightarrow> finite_values vs)"
  by (simp add: finite_values_def split: option.splits jsnum.splits)

lemma finite_only_values: "finite_only values = map Fin (finite_values values)"
  by (induction "values") (simp_all add: finite_values_Cons finite_values_def split: option.splits jsnum.splits)

lemma NaN_notin_Fin [simp]: "NaN \<notin> Fin ` A"
  by auto

lemma foldl_min_Fin:
  "foldl (\<lambda>lowest x. if jlt x lowest then x else lowest) (Fin m) (map Fin qs) = Fin (Min (insert m (set qs)))"
proof (induction qs arbitrary: m)
  case Nil
  then show ?case by simp
next
  case (Cons q qs)
  have "Min (insert m (insert q (set qs))) = Min (insert (min q m) (set qs))"
    by (cases "set qs = {}") (simp_all add: min.commute min.left_commute min.assoc)
  with Cons show ?case
    by (auto simp: min_def)
qed


lemma foldl_max_Fin:
  "foldl (\<lambda>highest x. if jlt highest x then x else highest) (Fin m) (map Fin qs) = Fin (Max (insert m (set qs)))"
proof (induction qs arbitrary: m)
  case Nil
  then show ?case by simp
next
  case (Cons q qs)
  have "Max (insert m (insert q (set qs))) = Max (insert (max q m) (set qs))"
    by (cases "set qs = {}") (simp_all add: max.commute max.left_commute max.assoc)
  with Cons show ?case
    by (auto simp: max_def)
qed

lemma math_min_Fin: "qs \<noteq> [] \<Longrightarrow> math_min (map Fin qs) = Fin (Min (set qs))"
  by (cases qs) (simp_all add: math_min_def foldl_min_Fin)

lemma math_max_Fin: "qs \<noteq> [] \<Longrightarrow> math_max (map Fin qs) = Fin (Max (set qs))"
  by (cases qs) (simp_all add: math_max_def foldl_max_Fin)

lemma computeStats_unfold:
  "computeStats values =
     (let valid = finite_values values
      in if valid = [] then \<lparr>mean = Fin 0, min_v = Fin 0, max_v = Fin 0\<rparr>
         else \<lparr>mean = jdiv (foldl jadd (Fin 0) (map Fin valid)) (Fin (of_nat (length valid))),
               min_v = Fin (Min (set valid)), max_v = Fin (Max (set valid))\<rparr>)"
  by (simp add: computeStats_def finite_only_values Let_def math_min_Fin math_max_Fin)

lemma rnd_numeral: "rnd (numeral n) = Fin (numeral n)" if "numeral n < (2::int) ^ 53"
  using rnd_int[of "numeral n"] that by simp

lemma jadd_binary64_add: "jadd x (Fin q) = binary64_add x q"
  by (cases x) simp_all

lemma foldl_jadd_binary64: "foldl jadd x (map Fin qs) = foldl binary64_add x qs"
  by (induction qs arbitrary: x) (simp_all add: jadd_binary64_add)

lemma jdiv_binary64_quotient: "0 < n \<Longrightarrow> jdiv x (Fin (of_nat n)) = binary64_quotient x n"
  by (cases x) simp_all

lemma computeStats_binary64: "computeStats values = binary64_computeStats values"
  by (simp add: computeStats_unfold binary64_computeStats_def binary64_sum_def Let_def
      foldl_jadd_binary64 jdiv_binary64_quotient)

text \<open>Integers whose absolute values add up to less than \<open>2 ^ 53\<close> are added exactly.\<close>

lemma binary64_add_integers:
  assumes "\<forall>q \<in> set qs. q \<in> \<int>" and "s \<in> \<int>" and "\<bar>s\<bar> + sum_list (map abs qs) < 2 ^ 53"
  shows "foldl binary64_add (Fin s) qs = Fin (s + sum_list qs)"
  using assms
proof (induction qs arbitrary: s)
  case Nil
  then show ?case by simp
next
  case (Cons q qs)
  from Cons.prems(1,2) have "s + q \<in> \<int>" by simp
  then obtain k where k: "s + q = of_int k" by (auto elim: Ints_cases)
  have b: "\<bar>s + q\<bar> + sum_list (map abs qs) < 2 ^ 53"
    using Cons.prems(3) abs_triangle_ineq[of s q] by simp
  have "0 \<le> sum_list (map abs qs)" by (induction qs) simp_all
  with b have "\<bar>s + q\<bar> < 2 ^ 53" by linarith
  then have "\<bar>(of_int k :: rat)\<bar> < of_int (2 ^ 53)" by (simp add: k)
  then have "\<bar>k\<bar> < 2 ^ 53" by (simp only: of_int_abs[symmetric] of_int_less_iff)
  then have r: "rnd (s + q) = Fin (s + q)" unfolding k by (rule rnd_int)
  have "foldl binary64_add (Fin (s + q)) qs = Fin (s + q + sum_list qs)"
    using Cons.prems(1) \<open>s + q \<in> \<int>\<close> b by (intro Cons.IH) simp_all
  then show ?case by (simp add: r add.assoc)
qed

lemma binary64_sum_integers:
  assumes "\<forall>q \<in> set qs. q \<in> \<int>" and "sum_list (map abs qs) < 2 ^ 53"
  shows "binary64_sum qs = Fin (sum_list qs)"
  using binary64_add_integers[of qs 0] assms by (simp add: binary64_sum_def)

text \<open>
  C5 says that \<open>computeStats\<close> keeps the finite numbers of its input and returns zeros when
  none is left, otherwise their arithmetic mean, minimum and maximum, with
  \<open>computeStats([]) = {0, 0, 0}\<close> and \<open>computeStats([NaN, 5]) = {5, 5, 5}\<close>. The mean it
  returns is a binary64 sum divided by the count, not the arithmetic mean: for three copies
  of \<open>2 ^ 1023\<close>, whose arithmetic mean is \<open>2 ^ 1023\<close>, the sum overflows and the mean
  returned is \<open>Infinity\<close>.
\<close>

theorem computeStats_mean_not_arithmetic:
  "is_double (2 ^ 1023) \<and>
   arith_mean [2 ^ 1023, 2 ^ 1023, 2 ^ 1023] = 2 ^ 1023 \<and>
   mean (spec_computeStats [Some (Fin (2 ^ 1023)), Some (Fin (2 ^ 1023)), Some (Fin (2 ^ 1023))])
     = Fin (2 ^ 1023) \<and>
   mean (computeStats [Some (Fin (2 ^ 1023)), Some (Fin (2 ^ 1023)), Some (Fin (2 ^ 1023))])
     = PInf"
proof -
  define a :: rat where "a = 2 ^ 1023"
  have e: "rnd a = Fin a"
    using rnd_exact_pos[of "2 ^ 52" 971] by (simp add: a_def)
  have o: "rnd (2 * a) = PInf"
    by (rule rnd_overflow) (simp add: a_def)
  have m: "arith_mean [a, a, a] = a" by (simp add: arith_mean_def)
  have "is_double a \<and> arith_mean [a, a, a] = a \<and>
      mean (spec_computeStats [Some (Fin a), Some (Fin a), Some (Fin a)]) = Fin a \<and>
      mean (computeStats [Some (Fin a), Some (Fin a), Some (Fin a)]) = PInf"
    using m by (simp add: is_double_def e o computeStats_unfold spec_computeStats_def
        finite_values_def)
  then show ?thesis unfolding a_def .
qed

text \<open>
  C5 as amended: \<open>computeStats\<close> keeps the finite numbers of its input and returns zeros
  when none is left; otherwise it returns their minimum, their maximum and, as the mean,
  their binary64 sum from the left divided in binary64 by their count. That mean is the
  arithmetic mean rounded to the nearest binary64 value whenever the sum is exact, as it
  is for integers whose absolute values add up to less than \<open>2 ^ 53\<close>.
  \<open>computeStats([])\<close> is \<open>{0, 0, 0}\<close> and \<open>computeStats([NaN, 5])\<close> is \<open>{5, 5, 5}\<close>.
\<close>

theorem computeStats_meets_description:
  "computeStats values = binary64_computeStats values \<and>
   (finite_values values \<noteq> [] \<and>
    binary64_sum (finite_values values) = Fin (sum_list (finite_values values)) \<longrightarrow>
      mean (computeStats values) = rnd (arith_mean (finite_values values))) \<and>
   (finite_values values \<noteq> [] \<and> (\<forall>q \<in> set (finite_values values). q \<in> \<int>) \<and>
    sum_list (map abs (finite_values values)) < 2 ^ 53 \<longrightarrow>
      mean (computeStats values) = rnd (arith_mean (finite_values values))) \<and>
   computeStats [] = \<lparr>mean = Fin 0, min_v = Fin 0, max_v = Fin 0\<rparr> \<and>
   computeStats [Some NaN, Some (Fin 5)] = \<lparr>mean = Fin 5, min_v = Fin 5, max_v = Fin 5\<rparr>"
proof (intro conjI impI)
  show "computeStats values = binary64_computeStats values" by (rule computeStats_binary64)
next
  assume "finite_values values \<noteq> [] \<and>
    binary64_sum (finite_values values) = Fin (sum_list (finite_values values))"
  then show "mean (computeStats values) = rnd (arith_mean (finite_values values))"
    by (simp add: computeStats_binary64 binary64_computeStats_def arith_mean_def Let_def)
next
  assume h: "finite_values values \<noteq> [] \<and> (\<forall>q \<in> set (finite_values values). q \<in> \<int>) \<and>
    sum_list (map abs (finite_values values)) < 2 ^ 53"
  then have "binary64_sum (finite_values values) = Fin (sum_list (finite_values values))"
    by (intro binary64_sum_integers) blast+
  with h show "mean (computeStats values) = rnd (arith_mean (finite_values values))"
    by (simp add: computeStats_binary64 binary64_computeStats_def arith_mean_def Let_def)
next
  show "computeStats [] = \<lparr>mean = Fin 0, min_v = Fin 0, max_v = Fin 0\<rparr>" by simp
next
  show "computeStats [Some NaN, Some (Fin 5)] = \<lparr>mean = Fin 5, min_v = Fin 5, max_v = Fin 5\<rparr>"
    by (simp add: computeStats_unfold finite_values_def rnd_numeral)
qed

theorem computeStats_meets_description_witness:
  "finite_values [Some (Fin 1), None, Some (Fin 2), Some PInf, Some (Fin 6)] = [1, 2, 6] \<and>
   binary64_sum [1, 2, 6] = Fin (sum_list [1, 2, 6]) \<and>
   (1::rat) \<in> \<int> \<and> (2::rat) \<in> \<int> \<and> (6::rat) \<in> \<int> \<and>
   sum_list (map abs [1, 2, 6 :: rat]) < 2 ^ 53 \<and>
   arith_mean [1, 2, 6] = 3 \<and>
   computeStats [Some (Fin 1), None, Some (Fin 2), Some PInf, Some (Fin 6)] =
     \<lparr>mean = Fin 3, min_v = Fin 1, max_v = Fin 6\<rparr>"
proof -
  let ?v = "[Some (Fin 1), None, Some (Fin 2), Some PInf, Some (Fin 6)]"
  have 1: "rnd 1 = Fin 1" using rnd_int[of 1] by simp
  have f: "finite_values ?v = [1, 2, 6]" by (simp add: finite_values_def)
  have s: "binary64_sum [1, 2, 6] = Fin (sum_list [1, 2, 6])"
    by (simp add: binary64_sum_def rnd_numeral 1)
  have a: "arith_mean [1, 2, 6] = 3" by (simp add: arith_mean_def)
  have i: "(1::rat) \<in> \<int>" "(2::rat) \<in> \<int>" "(6::rat) \<in> \<int>"
    "sum_list (map abs [1, 2, 6 :: rat]) < 2 ^ 53" by simp_all
  note T = computeStats_meets_description[of ?v]
  have h: "finite_values ?v \<noteq> [] \<and>
      binary64_sum (finite_values ?v) = Fin (sum_list (finite_values ?v))"
    unfolding f using s by simp
  have m: "mean (computeStats ?v) = rnd (arith_mean [1, 2, 6])"
    using T[THEN conjunct2, THEN conjunct1, rule_format, OF h] unfolding f .
  have b: "computeStats ?v = binary64_computeStats ?v"
    using T by (rule conjunct1)
  have "binary64_computeStats ?v = \<lparr>mean = Fin 3, min_v = Fin 1, max_v = Fin 6\<rparr>"
    using s by (simp add: binary64_computeStats_def f rnd_numeral)
  with b have "computeStats ?v = \<lparr>mean = Fin 3, min_v = Fin 1, max_v = Fin 6\<rparr>" by simp
  with f s a i show ?thesis by simp
qed

lemma finite_values_Some_Fin [simp]: "finite_values (map (\<lambda>q. Some (Fin q)) qs) = qs"
  by (induction qs) (simp_all add: finite_values_def)

lemma sum_list_lower: "(\<And>q. q \<in> set qs \<Longrightarrow> m \<le> q) \<Longrightarrow> of_nat (length qs) * m \<le> sum_list qs"
  for m :: rat
  by (induction qs) (auto simp: algebra_simps intro: add_mono)

lemma sum_list_upper: "(\<And>q. q \<in> set qs \<Longrightarrow> q \<le> m) \<Longrightarrow> sum_list qs \<le> of_nat (length qs) * m"
  for m :: rat
  by (induction qs) (auto simp: algebra_simps intro: add_mono)

lemma mean_between:
  fixes qs :: "rat list"
  assumes "qs \<noteq> []"
  shows "Min (set qs) \<le> sum_list qs / of_nat (length qs)"
    and "sum_list qs / of_nat (length qs) \<le> Max (set qs)"
proof -
  have n: "(0::rat) < of_nat (length qs)" using assms by simp
  have "of_nat (length qs) * Min (set qs) \<le> sum_list qs"
    by (rule sum_list_lower) simp
  then show "Min (set qs) \<le> sum_list qs / of_nat (length qs)"
    using n by (simp add: pos_le_divide_eq mult.commute)
  have "sum_list qs \<le> of_nat (length qs) * Max (set qs)"
    by (rule sum_list_upper) simp
  then show "sum_list qs / of_nat (length qs) \<le> Max (set qs)"
    using n by (simp add: pos_divide_le_eq mult.commute)
qed

text \<open>
  C8 says that for every non-empty list of finite numbers the result of \<open>computeStats\<close>
  has \<open>min \<le> mean \<le> max\<close>. The mean is a sum and a quotient in binary64 arithmetic:
  for the list of two copies of \<open>2 ^ 1023\<close> (a binary64 value) the sum overflows, and the
  mean is \<open>Infinity\<close>, above the maximum \<open>2 ^ 1023\<close>.
\<close>

theorem computeStats_mean_above_max:
  "is_double (2 ^ 1023) \<and>
   computeStats [Some (Fin (2 ^ 1023)), Some (Fin (2 ^ 1023))] =
     \<lparr>mean = PInf, min_v = Fin (2 ^ 1023), max_v = Fin (2 ^ 1023)\<rparr> \<and>
   \<not> jle PInf (Fin (2 ^ 1023))"
proof -
  define a :: rat where "a = 2 ^ 1023"
  have e: "rnd a = Fin a"
    using rnd_exact_pos[of "2 ^ 52" 971] by (simp add: a_def)
  have o: "rnd (2 * a) = PInf"
    by (rule rnd_overflow) (simp add: a_def)
  have "is_double a \<and>
      computeStats [Some (Fin a), Some (Fin a)] = \<lparr>mean = PInf, min_v = Fin a, max_v = Fin a\<rparr> \<and>
      \<not> jle PInf (Fin a)"
    by (simp add: is_double_def e o computeStats_unfold finite_values_def jle_def)
  then show ?thesis unfolding a_def .
qed

text \<open>
  C8 as amended: for every non-empty list of binary64 values whose sum from the left is
  computed without rounding and without overflow, the result of \<open>computeStats\<close> has
  \<open>min \<le> mean \<le> max\<close>.
\<close>

theorem computeStats_mean_between:
  assumes "qs \<noteq> []" and "\<forall>q \<in> set qs. is_double q"
    and "foldl jadd (Fin 0) (map Fin qs) = Fin (sum_list qs)"
  shows "jle (min_v (computeStats (map (\<lambda>q. Some (Fin q)) qs)))
             (mean (computeStats (map (\<lambda>q. Some (Fin q)) qs))) \<and>
         jle (mean (computeStats (map (\<lambda>q. Some (Fin q)) qs)))
             (max_v (computeStats (map (\<lambda>q. Some (Fin q)) qs)))"
proof -
  let ?n = "of_nat (length qs) :: rat"
  let ?m = "sum_list qs / ?n"
  have n: "?n \<noteq> 0" using assms(1) by simp
  have st: "computeStats (map (\<lambda>q. Some (Fin q)) qs) =
      \<lparr>mean = rnd ?m, min_v = Fin (Min (set qs)), max_v = Fin (Max (set qs))\<rparr>"
    using assms(1,3) n by (simp add: computeStats_unfold)
  have "Min (set qs) \<in> set qs" "Max (set qs) \<in> set qs" using assms(1) by simp_all
  with assms(2) have d: "rnd (Min (set qs)) = Fin (Min (set qs))" "rnd (Max (set qs)) = Fin (Max (set qs))"
    by (auto simp: is_double_def)
  from rnd_mono[OF mean_between(1)[OF assms(1)]] rnd_mono[OF mean_between(2)[OF assms(1)]]
  show ?thesis by (simp add: st d)
qed

theorem computeStats_mean_between_witness:
  "[1, 2, 4] \<noteq> ([] :: rat list) \<and> is_double 1 \<and> is_double 2 \<and> is_double 4 \<and>
   foldl jadd (Fin 0) (map Fin [1, 2, 4]) = Fin (sum_list [1, 2, 4]) \<and>
   jle (min_v (computeStats [Some (Fin 1), Some (Fin 2), Some (Fin 4)]))
       (mean (computeStats [Some (Fin 1), Some (Fin 2), Some (Fin 4)])) \<and>
   jle (mean (computeStats [Some (Fin 1), Some (Fin 2), Some (Fin 4)]))
       (max_v (computeStats [Some (Fin 1), Some (Fin 2), Some (Fin 4)]))"
proof -
  have 1: "rnd 1 = Fin 1" using rnd_int[of 1] by simp
  have h: "[1, 2, 4] \<noteq> ([] :: rat list)" "\<forall>q \<in> set [1, 2, 4]. is_double q"
    "foldl jadd (Fin 0) (map Fin [1, 2, 4]) = Fin (sum_list [1, 2, 4])"
    by (simp_all add: is_double_def rnd_numeral 1)
  from computeStats_mean_between[OF h] h show ?thesis by simp
qed

section \<open>The range histogram\<close>


lemma collect_values_length:
  "length (collect_values k xs) =
   length (filter (\<lambda>e. not_nullish (inputs e k) \<and> \<not> number_isNaN (inputs e k)) xs)"
  by (induction xs) (auto simp: Let_def not_nullish_def split: option.splits)











lemma bin_index_less: "bin_index bs i = Some k \<Longrightarrow> k < length bs"
  by (auto simp: bin_index_def split: jsnum.splits if_splits)

lemma sum_count_bump:
  "k < length bs \<Longrightarrow>
   sum_list (map count (bs[k := (bs ! k)\<lparr>count := count (bs ! k) + 1\<rparr>])) = Suc (sum_list (map count bs))"
  by (induction bs arbitrary: k) (auto split: nat.splits)

lemma count_values_sum:
  "count_values mn st bc vs bs = Inr bs' \<Longrightarrow>
   sum_list (map count bs') = sum_list (map count bs) + length vs"
proof (induction vs arbitrary: bs)
  case Nil
  then show ?case by simp
next
  case (Cons v vs)
  let ?i = "let index0 = math_floor (jdiv (jsub v mn) st)
            in if jge index0 (Fin (of_int bc)) then Fin (of_int (bc - 1)) else index0"
  from Cons.prems obtain k where k: "bin_index bs ?i = Some k"
    and r: "count_values mn st bc vs (bs[k := (bs ! k)\<lparr>count := count (bs ! k) + 1\<rparr>]) = Inr bs'"
    by (auto simp: Let_def split: option.splits)
  from Cons.IH[OF r] sum_count_bump[OF bin_index_less[OF k]] show ?case by simp
qed

lemma count_raw_bin: "count (raw_bin big mn mx st bc i) = 0"
  by (simp add: raw_bin_def Let_def)

lemma histogram_counts:
  assumes "buildHistogramData big experiments inputKey outputKey minOut maxOut binCount = Inr r"
  shows "sum_list (map count (bins r)) =
         length (collect_values inputKey (filter (in_window outputKey minOut maxOut) experiments))"
proof -
  let ?f = "filter (in_window outputKey minOut maxOut) experiments"
  let ?vs = "collect_values inputKey ?f"
  let ?mn = "math_min ?vs" and ?mx = "math_max ?vs"
  let ?st = "jdiv (jsub ?mx ?mn) (Fin (of_int binCount))"
  let ?raw = "map (raw_bin big ?mn ?mx ?st binCount) [0..binCount - 1]"
  consider "?f = []" | "?f \<noteq> []" "?vs = []" | "?vs \<noteq> []" "jeq ?mn ?mx"
    | "?vs \<noteq> []" "\<not> jeq ?mn ?mx"
    by (cases "?f = []"; cases "?vs = []"; cases "jeq ?mn ?mx") auto
  then show ?thesis
  proof cases
    case 1
    with assms show ?thesis by (auto simp: buildHistogramData_def)
  next
    case 2
    with assms show ?thesis by (auto simp: buildHistogramData_def Let_def)
  next
    case 3
    then have "?f \<noteq> []" by auto
    with 3 assms show ?thesis by (auto simp: buildHistogramData_def Let_def)
  next
    case 4
    then have f: "?f \<noteq> []" by auto
    from assms 4 f obtain bs where c: "count_values ?mn ?st binCount ?vs ?raw = Inr bs"
      and r: "r = \<lparr>bins = bs, matchingCount = length ?f\<rparr>"
      by (auto simp: buildHistogramData_def Let_def split: if_splits sum.splits)
    from count_values_sum[OF c] show ?thesis by (simp add: r count_raw_bin)
  qed
qed


lemmas histogram_eval =
  buildHistogramData_def Let_def in_window_def not_nullish_def number_isNaN_def
  jge_def jle_def jeq_def jsub_def js_def math_min_def math_max_def bin_index_def

text \<open>
  C2 says that \<open>computeStats\<close>, \<open>buildAdvisorSections\<close> and \<open>buildHistogramData\<close> never
  raise, whatever the dataset. \<open>buildHistogramData\<close> collects every input value that is
  neither null nor NaN, so also an infinity. With the values 1 and \<open>Infinity\<close> among the
  matching records the step is infinite, the bin index of \<open>Infinity\<close> is
  \<open>Math.floor(Infinity / Infinity)\<close>, that is NaN, and \<open>rawBins[NaN].count\<close> raises.
\<close>

theorem buildHistogramData_raises:
  "buildHistogramData any_host
     [\<lparr>exp_id = js ''a'', inputs = [js ''x'' \<mapsto> Fin 1], outputs = [js ''y'' \<mapsto> Fin 1]\<rparr>,
      \<lparr>exp_id = js ''b'', inputs = [js ''x'' \<mapsto> PInf], outputs = [js ''y'' \<mapsto> Fin 1]\<rparr>]
     (js ''x'') (js ''y'') (Fin 0) (Fin 2) 6
   = Inl TypeError"
  by (simp add: histogram_eval)


text \<open>
  Finite data can raise too: with the inputs \<open>- 2 ^ 1023\<close> and \<open>2 ^ 1023\<close> the spread
  \<open>maxVal - minVal\<close> overflows to \<open>Infinity\<close>, and the same index NaN follows.
\<close>

lemma buildHistogramData_raises_on_overflow:
  "buildHistogramData any_host
     [\<lparr>exp_id = js ''a'', inputs = [js ''x'' \<mapsto> Fin (- (2 ^ 1023))], outputs = [js ''y'' \<mapsto> Fin 1]\<rparr>,
      \<lparr>exp_id = js ''b'', inputs = [js ''x'' \<mapsto> Fin (2 ^ 1023)], outputs = [js ''y'' \<mapsto> Fin 1]\<rparr>]
     (js ''x'') (js ''y'') (Fin 0) (Fin 2) 6
   = Inl TypeError"
proof -
  define a :: rat where "a = 2 ^ 1023"
  have p: "0 < a" by (simp add: a_def)
  have o: "rnd (2 * a) = PInf"
    by (rule rnd_overflow) (simp add: a_def)
  have "buildHistogramData any_host
     [\<lparr>exp_id = js ''a'', inputs = [js ''x'' \<mapsto> Fin (- a)], outputs = [js ''y'' \<mapsto> Fin 1]\<rparr>,
      \<lparr>exp_id = js ''b'', inputs = [js ''x'' \<mapsto> Fin a], outputs = [js ''y'' \<mapsto> Fin 1]\<rparr>]
     (js ''x'') (js ''y'') (Fin 0) (Fin 2) 6
   = Inl TypeError"
    using p by (simp add: histogram_eval o)
  then show ?thesis unfolding a_def .
qed

text \<open>
  C3 says that the counts of the returned bins add up to the number of matching records
  that have a finite value for the input. The values collected are those that are neither
  null nor NaN, so an infinite value is counted too: a single matching record whose
  input is \<open>Infinity\<close> gives one bin of count 1, and no matching record has a finite input.
\<close>

theorem histogram_counts_infinite_value:
  "buildHistogramData any_host
     [\<lparr>exp_id = js ''a'', inputs = [js ''x'' \<mapsto> PInf], outputs = [js ''y'' \<mapsto> Fin 1]\<rparr>]
     (js ''x'') (js ''y'') (Fin 0) (Fin 2) 6
   = Inr \<lparr>bins = [\<lparr>binLabel = js ''Infinity'', count = 1\<rparr>], matchingCount = 1\<rparr> \<and>
   \<not> number_isFinite
       (inputs \<lparr>exp_id = js ''a'', inputs = [js ''x'' \<mapsto> PInf], outputs = [js ''y'' \<mapsto> Fin 1]\<rparr>
          (js ''x''))"
  by (simp add: histogram_eval)

text \<open>
  C3 as amended: whenever \<open>buildHistogramData\<close> returns, the counts of the returned bins
  add up to the number of matching records whose value for the input is neither missing
  nor NaN (which may be smaller than \<open>matchingCount\<close>).
\<close>

theorem histogram_counts_sum:
  assumes "buildHistogramData big experiments inputKey outputKey minOut maxOut binCount = Inr r"
  shows "sum_list (map count (bins r)) =
         length (filter (\<lambda>e. in_window outputKey minOut maxOut e \<and>
                             not_nullish (inputs e inputKey) \<and> \<not> number_isNaN (inputs e inputKey))
                   experiments)"
  using histogram_counts[OF assms]
  by (simp add: collect_values_length conj_commute)

theorem histogram_counts_sum_witness:
  "buildHistogramData any_host
     [\<lparr>exp_id = js ''a'', inputs = [js ''x'' \<mapsto> Fin 0], outputs = [js ''y'' \<mapsto> Fin 10]\<rparr>,
      \<lparr>exp_id = js ''b'', inputs = Map.empty, outputs = [js ''y'' \<mapsto> Fin 20]\<rparr>,
      \<lparr>exp_id = js ''c'', inputs = [js ''x'' \<mapsto> Fin 6], outputs = [js ''y'' \<mapsto> Fin 30]\<rparr>]
     (js ''x'') (js ''y'') (Fin 10) (Fin 30) 6
   = Inr \<lparr>bins = [\<lparr>binLabel = js ''0.0'' @ [8211] @ js ''1.0'', count = 1\<rparr>,
                   \<lparr>binLabel = js ''1.0'' @ [8211] @ js ''2.0'', count = 0\<rparr>,
                   \<lparr>binLabel = js ''2.0'' @ [8211] @ js ''3.0'', count = 0\<rparr>,
                   \<lparr>binLabel = js ''3.0'' @ [8211] @ js ''4.0'', count = 0\<rparr>,
                   \<lparr>binLabel = js ''4.0'' @ [8211] @ js ''5.0'', count = 0\<rparr>,
                   \<lparr>binLabel = js ''5.0'' @ [8211] @ js ''6.0'', count = 1\<rparr>],
            matchingCount = 3\<rparr> \<and>
   sum_list (map count
     [\<lparr>binLabel = js ''0.0'' @ [8211] @ js ''1.0'', count = 1\<rparr>,
      \<lparr>binLabel = js ''1.0'' @ [8211] @ js ''2.0'', count = 0\<rparr>,
      \<lparr>binLabel = js ''2.0'' @ [8211] @ js ''3.0'', count = 0\<rparr>,
      \<lparr>binLabel = js ''3.0'' @ [8211] @ js ''4.0'', count = 0\<rparr>,
      \<lparr>binLabel = js ''4.0'' @ [8211] @ js ''5.0'', count = 0\<rparr>,
      \<lparr>binLabel = js ''5.0'' @ [8211] @ js ''6.0'', count = 1\<rparr>]) = 2"
proof -
  have 1: "rnd 1 = Fin 1" using rnd_int[of 1] by simp
  have h: "buildHistogramData any_host
     [\<lparr>exp_id = js ''a'', inputs = [js ''x'' \<mapsto> Fin 0], outputs = [js ''y'' \<mapsto> Fin 10]\<rparr>,
      \<lparr>exp_id = js ''b'', inputs = Map.empty, outputs = [js ''y'' \<mapsto> Fin 20]\<rparr>,
      \<lparr>exp_id = js ''c'', inputs = [js ''x'' \<mapsto> Fin 6], outputs = [js ''y'' \<mapsto> Fin 30]\<rparr>]
     (js ''x'') (js ''y'') (Fin 10) (Fin 30) 6
   = Inr \<lparr>bins = [\<lparr>binLabel = js ''0.0'' @ [8211] @ js ''1.0'', count = 1\<rparr>,
                   \<lparr>binLabel = js ''1.0'' @ [8211] @ js ''2.0'', count = 0\<rparr>,
                   \<lparr>binLabel = js ''2.0'' @ [8211] @ js ''3.0'', count = 0\<rparr>,
                   \<lparr>binLabel = js ''3.0'' @ [8211] @ js ''4.0'', count = 0\<rparr>,
                   \<lparr>binLabel = js ''4.0'' @ [8211] @ js ''5.0'', count = 0\<rparr>,
                   \<lparr>binLabel = js ''5.0'' @ [8211] @ js ''6.0'', count = 1\<rparr>],
            matchingCount = 3\<rparr>"
    by (simp add: histogram_eval raw_bin_def rnd_numeral 1 fixed_digits_def digits_small
        digits_big upto_rec1)
  from histogram_counts_sum[OF h] h show ?thesis by simp
qed




section \<open>The thresholds \<open>high\<close> and \<open>low\<close>\<close>

lemma rnd_normal:
  assumes "2 powi e \<le> a" and "a < 2 powi (e + 1)" and "- 1022 \<le> e" and "e < 1023"
  shows "rnd a = Fin (of_int (rne (a / 2 powi (e - 52))) * 2 powi (e - 52))"
proof -
  have a: "0 < a" using assms(1) by (rule less_le_trans[rotated]) simp
  have e: "expo a = e" using ilog2_unique[OF assms(1,2)] assms(3) by (simp add: expo_def)
  have "rnd_mag a \<le> 2 powi (e + 1)" using rnd_mag_upper[OF a] by (simp add: e)
  also have "\<dots> < 2 powi 1024" using assms(4) by (simp only: pow2_less_iff)
  also have "\<dots> = 2 ^ 1024" by simp
  finally have "\<not> 2 ^ 1024 \<le> rnd_mag a" by (rule linorder_not_le[THEN iffD2])
  then have "rnd a = Fin (rnd_mag a)" unfolding rnd_pos[OF a] by (rule if_not_P)
  then show ?thesis by (simp add: rnd_mag_alt e)
qed

lemma rnd_subnormal:
  assumes "0 < a" and "a < 2 powi (- 1022)"
  shows "rnd a = Fin (of_int (rne (a / 2 powi (- 1074))) * 2 powi (- 1074))"
proof -
  have "2 powi (ilog2 a) < (2::rat) powi (- 1022)"
    using ilog2_bounds(1)[OF assms(1)] assms(2) by (rule le_less_trans)
  then have "ilog2 a < - 1022" by (simp only: pow2_less_iff)
  then have e: "expo a = - 1022" by (simp add: expo_def)
  have "rnd_mag a \<le> 2 powi (- 1021)" using rnd_mag_upper[OF assms(1)] by (simp add: e)
  also have "\<dots> < 2 powi 1024" by (simp only: pow2_less_iff)
  also have "\<dots> = 2 ^ 1024" by simp
  finally have "\<not> 2 ^ 1024 \<le> rnd_mag a" by (rule linorder_not_le[THEN iffD2])
  then have "rnd a = Fin (rnd_mag a)" unfolding rnd_pos[OF assms(1)] by (rule if_not_P)
  then show ?thesis by (simp add: rnd_mag_alt e)
qed

lemma lit_115: "lit (115 / 100) = Fin (5179139571476070 / 2 ^ 52)"
  using rnd_normal[of 0 "115 / 100"] by (simp add: lit_def rne_def)

lemma lit_85: "lit (85 / 100) = Fin (7656119366529843 / 2 ^ 53)"
  using rnd_normal[of "- 1" "85 / 100"] by (simp add: lit_def rne_def)

lemma lit_11500001: "lit (11500001 / 10000000) = Fin (5179140021836033 / 2 ^ 52)"
  using rnd_normal[of 0 "11500001 / 10000000"] by (simp add: lit_def rne_def)


lemma jlt_irrefl [simp]: "\<not> jlt x x"
  by (cases x) simp_all

lemma jlt_trans: "jlt a b \<Longrightarrow> jlt b c \<Longrightarrow> jlt a c"
  by (cases a; cases b; cases c) simp_all

lemma rnd_mag_rel_bounds:
  assumes "2 powi (- 1022) \<le> a"
  shows "a - a / 2 ^ 53 \<le> rnd_mag a" and "rnd_mag a \<le> a + a / 2 ^ 53"
proof -
  have a: "0 < a" using assms by (rule less_le_trans[rotated]) simp
  have "2 powi (- 1022) < (2::rat) powi (ilog2 a + 1)"
    using assms ilog2_bounds(2)[OF a] by (rule le_less_trans)
  then have "- 1022 < ilog2 a + 1" by (simp only: pow2_less_iff)
  then have e: "expo a = ilog2 a" by (simp add: expo_def)
  have "\<bar>rnd_mag a - a\<bar> \<le> 2 powi (expo a - 53)" by (rule rnd_mag_err)
  also have "\<dots> = 2 powi (ilog2 a) / 2 powi 53" by (simp add: e power_int_diff)
  also have "\<dots> \<le> a / 2 powi 53"
    using ilog2_bounds(1)[OF a] by (intro divide_right_mono) simp_all
  also have "\<dots> = a / 2 ^ 53" by simp
  finally have "\<bar>rnd_mag a - a\<bar> \<le> a / 2 ^ 53" .
  then show "a - a / 2 ^ 53 \<le> rnd_mag a" and "rnd_mag a \<le> a + a / 2 ^ 53"
    unfolding abs_diff_le_iff by blast+
qed

lemma rnd_finite_normal:
  assumes "2 powi (- 1022) \<le> a" and "a \<le> 2 ^ 1023 * (5 / 4)"
  shows "rnd a = Fin (rnd_mag a)"
proof -
  have a: "0 < a" using assms(1) by (rule less_le_trans[rotated]) simp
  have "a / 2 ^ 53 \<le> a / 2" using a by (intro divide_left_mono) simp_all
  with rnd_mag_rel_bounds(2)[OF assms(1)] have "rnd_mag a \<le> a + a / 2" by linarith
  also have "\<dots> = a * (3 / 2)" by simp
  also have "\<dots> \<le> 2 ^ 1023 * (5 / 4) * (3 / 2)" using assms(2) by (intro mult_right_mono) simp_all
  also have "\<dots> < 2 ^ 1024" by simp
  finally have "\<not> 2 ^ 1024 \<le> rnd_mag a" by (rule linorder_not_le[THEN iffD2])
  then show ?thesis unfolding rnd_pos[OF a] by (rule if_not_P)
qed

lemma high_low_exclusive:
  assumes "jgt (mean s) (Fin 0)"
  shows "\<not> (high v s \<and> low v s)"
proof
  define k0 :: rat where "k0 = 5179139571476070 / 2 ^ 52"
  define k8 :: rat where "k8 = 7656119366529843 / 2 ^ 53"
  have l0: "lit (115 / 100) = Fin k0" unfolding k0_def by (rule lit_115)
  have l8: "lit (85 / 100) = Fin k8" unfolding k8_def by (rule lit_85)
  have k: "k8 \<le> k0" "0 < k0" "0 < k8" by (simp_all add: k0_def k8_def)
  assume hl: "high v s \<and> low v s"
  then have 1: "jlt (jmul (mean s) (Fin k0)) v" and 2: "jlt v (jmul (mean s) (Fin k8))"
    unfolding high_def low_def jgt_def l0 l8 by blast+
  from jlt_trans[OF 1 2] have lt: "jlt (jmul (mean s) (Fin k0)) (jmul (mean s) (Fin k8))" .
  show False
  proof (cases "mean s")
    case (Fin m)
    with assms have m: "0 < m" by (simp add: jgt_def)
    have "m * k8 \<le> m * k0" using m k(1) by (intro mult_left_mono) simp_all
    from rnd_mono[OF this] lt show False
      by (simp add: Fin jle_def)
  next
    case PInf
    with lt k show False by simp
  next
    case NInf
    with assms show False by (simp add: jgt_def)
  next
    case NaN
    with assms show False by (simp add: jgt_def)
  qed
qed

lemma high_just_above:
  assumes "mean s = Fin m" and "2 powi (- 1022) \<le> m" and "m \<le> 2 ^ 1023"
  shows "high (jmul (mean s) (lit (11500001 / 10000000))) s"
proof -
  define k0 :: rat where "k0 = 5179139571476070 / 2 ^ 52"
  define k1 :: rat where "k1 = 5179140021836033 / 2 ^ 52"
  have l0: "lit (115 / 100) = Fin k0" unfolding k0_def by (rule lit_115)
  have l1: "lit (11500001 / 10000000) = Fin k1" unfolding k1_def by (rule lit_11500001)
  have k: "1 \<le> k0" "1 \<le> k1" "k0 \<le> 5 / 4" "k1 \<le> 5 / 4" "k0 + k0 / 2 ^ 53 < k1 - k1 / 2 ^ 53"
    by (simp_all add: k0_def k1_def)
  have m: "0 < m" using assms(2) by (rule less_le_trans[rotated]) simp
  have lo0: "2 powi (- 1022) \<le> m * k0"
  proof -
    have "m * 1 \<le> m * k0" using m k(1) by (intro mult_left_mono) simp_all
    then have "m \<le> m * k0" by (simp only: mult_1_right)
    with assms(2) show ?thesis by (rule order_trans)
  qed
  have lo1: "2 powi (- 1022) \<le> m * k1"
  proof -
    have "m * 1 \<le> m * k1" using m k(2) by (intro mult_left_mono) simp_all
    then have "m \<le> m * k1" by (simp only: mult_1_right)
    with assms(2) show ?thesis by (rule order_trans)
  qed
  have kp: "0 \<le> k0" "0 \<le> k1" using k(1,2) by linarith+
  have hi0: "m * k0 \<le> 2 ^ 1023 * (5 / 4)"
    using assms(3) k(3) kp(1) by (intro mult_mono) simp_all
  have hi1: "m * k1 \<le> 2 ^ 1023 * (5 / 4)"
    using assms(3) k(4) kp(2) by (intro mult_mono) simp_all
  have "rnd_mag (m * k0) \<le> m * k0 + m * k0 / 2 ^ 53"
    by (rule rnd_mag_rel_bounds(2)[OF lo0])
  also have "\<dots> = m * (k0 + k0 / 2 ^ 53)" by (simp add: algebra_simps)
  also have "\<dots> < m * (k1 - k1 / 2 ^ 53)"
    using m k(5) by (rule mult_strict_left_mono[rotated])
  also have "\<dots> = m * k1 - m * k1 / 2 ^ 53" by (simp add: algebra_simps)
  also have "\<dots> \<le> rnd_mag (m * k1)"
    by (rule rnd_mag_rel_bounds(1)[OF lo1])
  finally have "rnd_mag (m * k0) < rnd_mag (m * k1)" .
  then show ?thesis
    unfolding high_def jgt_def assms(1) l0 l1 jmul.simps
      rnd_finite_normal[OF lo0 hi0] rnd_finite_normal[OF lo1 hi1] jlt.simps .
qed


lemma rne_one: "1 \<le> k \<Longrightarrow> k < 3 / 2 \<Longrightarrow> rne k = 1"
proof -
  assume k: "1 \<le> k" "k < 3 / 2"
  then have f: "\<lfloor>k\<rfloor> = 1" by (intro floor_unique) simp_all
  show ?thesis using k by (simp add: rne_def f)
qed

lemma rnd_smallest:
  assumes "1 \<le> k" and "k < 3 / 2"
  shows "rnd (2 powi (- 1074) * k) = Fin (2 powi (- 1074))"
proof -
  define m :: rat where "m = 2 powi (- 1074)"
  have m: "0 < m" by (simp add: m_def)
  have a: "0 < m * k" using m assms(1) by simp
  have "m * k < m * 2" using m assms(2) by (intro mult_strict_left_mono) simp_all
  also have "m * 2 = 2 powi (- 1073)" unfolding m_def using power_int_add_1[of "2::rat" "- 1074"] by simp
  also have "\<dots> < 2 powi (- 1022)" by (simp only: pow2_less_iff)
  finally have b: "m * k < 2 powi (- 1022)" .
  have q: "m * k / 2 powi (- 1074) = k" by (simp add: m_def)
  have "rnd (m * k) = Fin (of_int (rne (m * k / 2 powi (- 1074))) * 2 powi (- 1074))"
    using a b by (rule rnd_subnormal)
  also have "\<dots> = Fin m" unfolding q rne_one[OF assms] by (simp add: m_def)
  finally show ?thesis unfolding m_def .
qed

lemma threshold_of_100:
  "jmul (Fin 100) (lit (115 / 100)) = Fin (8092405580431359 / 2 ^ 46)"
proof -
  have "rnd (100 * (5179139571476070 / 2 ^ 52)) = Fin (8092405580431359 / 2 ^ 46)"
    using rnd_normal[of 6 "100 * (5179139571476070 / 2 ^ 52)"] by (simp add: rne_def)
  then show ?thesis unfolding lit_115 jmul.simps .
qed

text \<open>
  C4 says that \<open>high\<close> and \<open>low\<close> never hold together when the mean is positive, that
  \<open>v = 1.15 * mean\<close> is not high, and that \<open>v = 1.1500001 * mean\<close> is. The thresholds are
  binary64 products, and the two boundary statements fail whichever way \<open>v\<close> is read.
  Read as the exact number: for the mean 100 the threshold \<open>100 * 1.15\<close> is
  \<open>114.99999999999998...\<close>, so \<open>v = 115\<close>, exactly 1.15 times the mean, is high.
  Read as the product the program computes: for the smallest positive binary64 mean,
  \<open>2 powi (- 1074)\<close>, the products by 1.15 and by 1.1500001 are both the mean itself, so
  \<open>v = 1.1500001 * mean\<close> is not high.
\<close>

theorem high_boundary_fails:
  "(115::rat) = 115 / 100 * 100 \<and>
   high (Fin 115) \<lparr>mean = Fin 100, min_v = Fin 100, max_v = Fin 100\<rparr> \<and>
   is_double (2 powi (- 1074)) \<and> jgt (Fin (2 powi (- 1074))) (Fin 0) \<and>
   \<not> high (jmul (Fin (2 powi (- 1074))) (lit (11500001 / 10000000)))
          \<lparr>mean = Fin (2 powi (- 1074)), min_v = Fin (2 powi (- 1074)), max_v = Fin (2 powi (- 1074))\<rparr>"
proof -
  define m :: rat where "m = 2 powi (- 1074)"
  define k0 :: rat where "k0 = 5179139571476070 / 2 ^ 52"
  define k1 :: rat where "k1 = 5179140021836033 / 2 ^ 52"
  have l0: "lit (115 / 100) = Fin k0" unfolding k0_def by (rule lit_115)
  have l1: "lit (11500001 / 10000000) = Fin k1" unfolding k1_def by (rule lit_11500001)
  have k: "1 \<le> k0" "k0 < 3 / 2" "1 \<le> k1" "k1 < 3 / 2" by (simp_all add: k0_def k1_def)
  have d: "rnd m = Fin m"
    using rnd_exact_pos[of 1 "- 1074"] by (simp add: m_def)
  have p: "0 < m" by (simp add: m_def)
  have r0: "rnd (m * k0) = Fin m" unfolding m_def by (rule rnd_smallest[OF k(1,2)])
  have r1: "rnd (m * k1) = Fin m" unfolding m_def by (rule rnd_smallest[OF k(3,4)])
  have "jlt (Fin (8092405580431359 / 2 ^ 46)) (Fin 115)" by simp
  then have a: "high (Fin 115) \<lparr>mean = Fin 100, min_v = Fin 100, max_v = Fin 100\<rparr>"
    unfolding high_def jgt_def Stats.simps threshold_of_100 .
  have "is_double m \<and> jgt (Fin m) (Fin 0) \<and>
     \<not> high (jmul (Fin m) (lit (11500001 / 10000000))) \<lparr>mean = Fin m, min_v = Fin m, max_v = Fin m\<rparr>"
    unfolding is_double_def high_def jgt_def l0 l1 using d p by (simp add: r0 r1)
  then show ?thesis unfolding m_def using a by simp
qed

text \<open>
  C4 as amended: for every value \<open>v\<close> and stats \<open>s\<close> with a positive mean, \<open>high\<close> and
  \<open>low\<close> are never both true; \<open>v = mean * 1.15\<close>, the product as the program computes
  it, is never high; and \<open>v = mean * 1.1500001\<close>, computed likewise, is high whenever the
  mean lies between \<open>2 powi (- 1022)\<close> and \<open>2 ^ 1023\<close>, the range where the two products
  neither round to the same value nor overflow.
\<close>

theorem high_low_thresholds:
  "(jgt (mean s) (Fin 0) \<longrightarrow> \<not> (high v s \<and> low v s)) \<and>
   \<not> high (jmul (mean s) (lit (115 / 100))) s \<and>
   (mean s = Fin m \<and> 2 powi (- 1022) \<le> m \<and> m \<le> 2 ^ 1023 \<longrightarrow>
      high (jmul (mean s) (lit (11500001 / 10000000))) s)"
proof (intro conjI impI)
  assume "jgt (mean s) (Fin 0)"
  then show "\<not> (high v s \<and> low v s)" by (rule high_low_exclusive)
next
  show "\<not> high (jmul (mean s) (lit (115 / 100))) s"
    by (simp add: high_def jgt_def)
next
  assume "mean s = Fin m \<and> 2 powi (- 1022) \<le> m \<and> m \<le> 2 ^ 1023"
  then show "high (jmul (mean s) (lit (11500001 / 10000000))) s"
    by (intro high_just_above[of s m]) blast+
qed

theorem high_low_thresholds_witness:
  "jgt (mean \<lparr>mean = Fin 100, min_v = Fin 50, max_v = Fin 150\<rparr>) (Fin 0) \<and>
   \<not> (high (Fin 120) \<lparr>mean = Fin 100, min_v = Fin 50, max_v = Fin 150\<rparr> \<and>
      low (Fin 120) \<lparr>mean = Fin 100, min_v = Fin 50, max_v = Fin 150\<rparr>) \<and>
   mean \<lparr>mean = Fin 100, min_v = Fin 50, max_v = Fin 150\<rparr> = Fin 100 \<and>
   2 powi (- 1022) \<le> (100::rat) \<and> (100::rat) \<le> 2 ^ 1023 \<and>
   high (jmul (mean \<lparr>mean = Fin 100, min_v = Fin 50, max_v = Fin 150\<rparr>) (lit (11500001 / 10000000)))
        \<lparr>mean = Fin 100, min_v = Fin 50, max_v = Fin 150\<rparr>"
proof -
  have h: "jgt (mean \<lparr>mean = Fin 100, min_v = Fin 50, max_v = Fin 150\<rparr>) (Fin 0)"
    "mean \<lparr>mean = Fin 100, min_v = Fin 50, max_v = Fin 150\<rparr> = Fin 100"
    "2 powi (- 1022) \<le> (100::rat)" "(100::rat) \<le> 2 ^ 1023"
    by (simp_all add: jgt_def)
  from high_low_thresholds[of "\<lparr>mean = Fin 100, min_v = Fin 50, max_v = Fin 150\<rparr>" "Fin 120" 100] h
  show ?thesis by blast
qed

end
